theory Spec2Isabelle
  imports Complex_Main "HOL-Library.Word"
begin

section \<open>Paired image augmentation and XDoG sketch conversion\<close>

text \<open>
  A shallow embedding of \<^verbatim>\<open>dataset_aug.py\<close>, \<^verbatim>\<open>lineart_util.py\<close> and
  \<^verbatim>\<open>convert_source_to_sketch.py\<close>.

  Conventions of the embedding.
  \<^item> A raised exception is a value \<open>Inl e\<close> of the result type \<open>py_error + 'a\<close>.
  \<^item> Python floats are idealised as \<open>real\<close>: rounding of floating-point operations is
    not modelled. \<open>int(x)\<close> on a float truncates towards zero.
  \<^item> The process-wide random generator is an explicit state, the sequence of its future
    raw outputs; every call of \<^verbatim>\<open>random.uniform\<close>, \<^verbatim>\<open>random.choice\<close> or
    \<^verbatim>\<open>random.randint\<close> consumes one raw output and returns the remaining sequence.
  \<^item> Pixel interpolation done inside Pillow and OpenCV (rotation by an angle that is not
    a multiple of 360 degrees, resampling to a different size, Gaussian blur) is not
    determined by this repository; it is a parameter, the record \<open>library\<close>. What the
    repository relies on (sizes, fast paths, raised errors) is written out.
  \<^item> Images are of mode RGB, as the data model of the specification has them.
\<close>

subsection \<open>Errors\<close>

datatype py_error = ValueError | ZeroDivisionError | IndexError | AssertionError | Cv2Error

definition and_then :: "'e + 'a \<Rightarrow> ('a \<Rightarrow> 'e + 'b) \<Rightarrow> 'e + 'b" where
  "and_then m f = (case m of Inl e \<Rightarrow> Inl e | Inr x \<Rightarrow> f x)"

subsection \<open>Images and arrays\<close>

type_synonym u8 = "8 word"

type_synonym rgb = "u8 \<times> u8 \<times> u8"

text \<open>
  A Pillow image of mode RGB: its size and its pixel at column \<open>x\<close>, row \<open>y\<close>. Only the
  pixels inside the size are meaningful.
\<close>

record image =
  width :: nat
  height :: nat
  getpixel :: "int \<Rightarrow> int \<Rightarrow> rgb"

text \<open>A numpy array of shape \<open>(H, W, C)\<close>, indexed row, column, channel.\<close>

record 'a ndarray =
  nd_H :: nat
  nd_W :: nat
  nd_C :: nat
  nd_at :: "nat \<Rightarrow> nat \<Rightarrow> nat \<Rightarrow> 'a"

datatype interpolation = INTER_CUBIC | INTER_AREA

record library =
  Image_rotate_px :: "image \<Rightarrow> real \<Rightarrow> rgb \<Rightarrow> image"
  Image_resize_px :: "image \<Rightarrow> nat \<Rightarrow> nat \<Rightarrow> int \<Rightarrow> int \<Rightarrow> rgb"
  cv2_resize_px :: "u8 ndarray \<Rightarrow> nat \<Rightarrow> nat \<Rightarrow> interpolation \<Rightarrow> nat \<Rightarrow> nat \<Rightarrow> nat \<Rightarrow> u8"
  cv2_GaussianBlur_px :: "real ndarray \<Rightarrow> real \<Rightarrow> nat \<Rightarrow> nat \<Rightarrow> nat \<Rightarrow> real"

definition py_int :: "real \<Rightarrow> int" where
  "py_int x = (if 0 \<le> x then \<lfloor>x\<rfloor> else \<lceil>x\<rceil>)"

definition py_floordiv :: "int \<Rightarrow> int \<Rightarrow> py_error + int" where
  "py_floordiv a b = (if b = 0 then Inl ZeroDivisionError else Inr (a div b))"

subsection \<open>The random generator\<close>

type_synonym rng = "nat \<Rightarrow> nat"

definition next_raw :: "rng \<Rightarrow> nat \<times> rng" where
  "next_raw g = (g 0, \<lambda>i. g (Suc i))"

text \<open>\<^verbatim>\<open>random.random()\<close>: a multiple of \<open>2^-53\<close> in \<open>[0, 1)\<close>.\<close>

definition random :: "rng \<Rightarrow> real \<times> rng" where
  "random g = (case next_raw g of (r, g') \<Rightarrow> (real (r mod 2 ^ 53) / 2 ^ 53, g'))"

text \<open>\<^verbatim>\<open>random.uniform(a, b)\<close> is \<^verbatim>\<open>a + (b - a) * random()\<close>.\<close>

definition uniform :: "real \<Rightarrow> real \<Rightarrow> rng \<Rightarrow> real \<times> rng" where
  "uniform a b g = (case random g of (u, g') \<Rightarrow> (a + (b - a) * u, g'))"

text \<open>\<^verbatim>\<open>random.choice(seq)\<close> is \<^verbatim>\<open>seq[randbelow(len(seq))]\<close>; an empty sequence raises.\<close>

definition choice :: "'a list \<Rightarrow> rng \<Rightarrow> py_error + ('a \<times> rng)" where
  "choice seq g =
     (if seq = [] then Inl IndexError
      else case next_raw g of (r, g') \<Rightarrow> Inr (seq ! (r mod length seq), g'))"

text \<open>
  \<^verbatim>\<open>random.randint(a, b)\<close> is \<^verbatim>\<open>randrange(a, b + 1)\<close>: it raises ValueError on an
  empty range and otherwise returns \<^verbatim>\<open>a + randbelow(b + 1 - a)\<close>.
\<close>

definition randint :: "int \<Rightarrow> int \<Rightarrow> rng \<Rightarrow> py_error + (int \<times> rng)" where
  "randint a b g =
     (if b + 1 - a > 0
      then case next_raw g of (r, g') \<Rightarrow> Inr (a + int (r mod nat (b + 1 - a)), g')
      else Inl ValueError)"

subsection \<open>Pillow operations used by the augmenter\<close>

text \<open>\<^verbatim>\<open>Image.new("RGB", size, color)\<close>; a negative size raises ValueError.\<close>

definition Image_new :: "int \<times> int \<Rightarrow> rgb \<Rightarrow> py_error + image" where
  "Image_new sz color =
     (case sz of (w, h) \<Rightarrow>
        if w < 0 \<or> h < 0 then Inl ValueError
        else Inr \<lparr>width = nat w, height = nat h, getpixel = \<lambda>x y. color\<rparr>)"

text \<open>
  \<^verbatim>\<open>Image.crop(box)\<close>: a box with right < left or lower < upper raises ValueError;
  the part of the box outside the image is black. A box without area is accepted and
  gives an image without pixels.
\<close>

definition Image_crop :: "image \<Rightarrow> int \<times> int \<times> int \<times> int \<Rightarrow> py_error + image" where
  "Image_crop img box =
     (case box of (l, u, r, b) \<Rightarrow>
        if r < l then Inl ValueError
        else if b < u then Inl ValueError
        else Inr \<lparr>width = nat (r - l), height = nat (b - u),
                  getpixel = \<lambda>x y.
                    if 0 \<le> x + l \<and> x + l < int (width img) \<and> 0 \<le> y + u \<and> y + u < int (height img)
                    then getpixel img (x + l) (y + u) else (0, 0, 0)\<rparr>)"

text \<open>\<^verbatim>\<open>canvas.paste(im, (x, y))\<close>, returning the updated canvas.\<close>

definition Image_paste :: "image \<Rightarrow> image \<Rightarrow> int \<times> int \<Rightarrow> image" where
  "Image_paste canvas im pos =
     (case pos of (px, py) \<Rightarrow>
        canvas\<lparr>getpixel := \<lambda>x y.
          if px \<le> x \<and> x < px + int (width im) \<and> py \<le> y \<and> y < py + int (height im)
          then getpixel im (x - px) (y - py) else getpixel canvas x y\<rparr>)"

text \<open>
  \<^verbatim>\<open>Image.resize(size)\<close>: the same size returns a copy; a requested width or height
  below 1 raises ValueError; otherwise the result has the requested size and resampled
  pixels. Pillow checks the requested size only: an image without pixels is resampled
  like any other.
\<close>

definition Image_resize :: "library \<Rightarrow> image \<Rightarrow> int \<times> int \<Rightarrow> py_error + image" where
  "Image_resize K img sz =
     (case sz of (w, h) \<Rightarrow>
        if (int (width img), int (height img)) = (w, h) then Inr img
        else if w < 1 \<or> h < 1 then Inl ValueError
        else Inr \<lparr>width = nat w, height = nat h,
                  getpixel = Image_resize_px K img (nat w) (nat h)\<rparr>)"

text \<open>\<^verbatim>\<open>ImageOps.mirror\<close>: the left-right flip.\<close>

definition mirror :: "image \<Rightarrow> image" where
  "mirror img = img\<lparr>getpixel := \<lambda>x y. getpixel img (int (width img) - 1 - x) y\<rparr>"

text \<open>\<^verbatim>\<open>list(img.getdata())\<close>: the pixels in row-major order.\<close>

definition getdata :: "image \<Rightarrow> rgb list" where
  "getdata img =
     concat (map (\<lambda>y. map (\<lambda>x. getpixel img (int x) (int y)) [0..<width img]) [0..<height img])"

text \<open>
  \<^verbatim>\<open>Counter(colors).most_common(1)[0][0]\<close>: the first value, in order of first
  occurrence, whose count is maximal; IndexError on an empty list.
\<close>

definition most_common1 :: "'a list \<Rightarrow> py_error + 'a" where
  "most_common1 xs =
     (case xs of
        [] \<Rightarrow> Inl IndexError
      | x # rest \<Rightarrow>
          Inr (fold (\<lambda>c best. if count_list xs best < count_list xs c then c else best) rest x))"

subsection \<open>dataset\_aug.py\<close>

definition red :: "rgb \<Rightarrow> nat" where "red p = unat (fst p)"
definition green :: "rgb \<Rightarrow> nat" where "green p = unat (fst (snd p))"
definition blue :: "rgb \<Rightarrow> nat" where "blue p = unat (snd (snd p))"

text \<open>
  \<^verbatim>\<open>get_average_color\<close>: \<^verbatim>\<open>ImageStat.Stat(image).mean\<close> is the per-band sum divided by
  the pixel count (ZeroDivisionError for an image without pixels), truncated by
  \<^verbatim>\<open>int\<close>.
\<close>

definition get_average_color :: "image \<Rightarrow> py_error + rgb" where
  "get_average_color img =
     (let px = getdata img; n = length px in
      if n = 0 then Inl ZeroDivisionError
      else Inr (of_nat (sum_list (map red px) div n),
                of_nat (sum_list (map green px) div n),
                of_nat (sum_list (map blue px) div n)))"

text \<open>Lines 28 to 34 of \<^verbatim>\<open>get_edge_mode_color\<close>: the pixels of the four border strips.\<close>

definition edge_colors :: "image \<Rightarrow> int \<Rightarrow> py_error + rgb list" where
  "edge_colors img edge_width =
     and_then (Image_crop img (0, 0, edge_width, int (height img))) (\<lambda>left.
     and_then (Image_crop img (int (width img) - edge_width, 0, int (width img), int (height img))) (\<lambda>right.
     and_then (Image_crop img (0, 0, int (width img), edge_width)) (\<lambda>top'.
     and_then (Image_crop img (0, int (height img) - edge_width, int (width img), int (height img))) (\<lambda>bottom.
       Inr (getdata left @ getdata right @ getdata top' @ getdata bottom)))))"

definition get_edge_mode_color :: "image \<Rightarrow> int \<Rightarrow> py_error + rgb" where
  "get_edge_mode_color img edge_width = and_then (edge_colors img edge_width) most_common1"

text \<open>Python's \<^verbatim>\<open>x % y\<close> on floats, for a positive \<open>y\<close>.\<close>

definition py_fmod :: "real \<Rightarrow> real \<Rightarrow> real" where
  "py_fmod x y = x - y * of_int \<lfloor>x / y\<rfloor>"

text \<open>
  \<^verbatim>\<open>image.rotate(angle, expand=True, fillcolor=fill_color)\<close>: Pillow reduces the angle
  modulo 360 and returns a copy when the result is 0; every other angle is the library's.
\<close>

definition rotate_image :: "library \<Rightarrow> image \<Rightarrow> real \<Rightarrow> rgb \<Rightarrow> image" where
  "rotate_image K img a fill_color =
     (if py_fmod a 360 = 0 then img else Image_rotate_px K img a fill_color)"

definition crop_square :: "image \<Rightarrow> int \<Rightarrow> int \<Rightarrow> int \<Rightarrow> py_error + image" where
  "crop_square cropped_rect_image left top' crop_size =
     Image_crop cropped_rect_image (left, top', left + crop_size, top' + crop_size)"

definition apply_random_flip :: "image \<Rightarrow> bool \<Rightarrow> image" where
  "apply_random_flip img is_horizontal = (if is_horizontal then mirror img else img)"

text \<open>
  The keyword parameters of \<^verbatim>\<open>process_image_pair\<close>, under their own names.
\<close>

record aug_config =
  output_size :: "int \<times> int"
  is_flip :: bool
  rotation_range :: real
  min_scale :: real
  max_scale :: real
  source_is_avg_color_fill :: bool
  source_is_edge_mode_fill :: bool
  target_is_avg_color_fill :: bool
  target_is_edge_mode_fill :: bool
  expand_to_long_side :: bool

text \<open>
  The local variables of one call of \<^verbatim>\<open>process_image_pair\<close> when line 151 has been
  executed. \<open>angle\<close> and \<open>is_horizontal\<close> are \<open>None\<close> when the call never assigns them.
\<close>

record draw_locals =
  source_fill_color :: rgb
  target_fill_color :: rgb
  angle :: "real option"
  is_horizontal :: "bool option"
  base_source :: image
  base_target :: image
  canvas_scale :: real
  scaled_source :: image
  scaled_target :: image
  crop_source_size :: int
  crop_target_size :: int
  left_source :: int
  top_source :: int
  left_target :: int
  top_target :: int
  rng_after :: rng

text \<open>
  Lines 72 to 86, the same chain for either role: the edge-mode flag is tested first, then
  the average flag, else white.
\<close>

definition choose_fill_color :: "image \<Rightarrow> bool \<Rightarrow> bool \<Rightarrow> py_error + rgb" where
  "choose_fill_color img is_edge_mode_fill is_avg_color_fill =
     (if is_edge_mode_fill then get_edge_mode_color img 10
      else if is_avg_color_fill then get_average_color img
      else Inr (255, 255, 255))"

text \<open>Lines 93 to 100 (and 103 to 108): the square canvas of the long-side expansion.\<close>

definition long_side_canvas :: "image \<Rightarrow> rgb \<Rightarrow> py_error + image" where
  "long_side_canvas base fill_color =
     (let long_side = int (max (width base) (height base)) in
      and_then (Image_new (long_side, long_side) fill_color) (\<lambda>canvas.
        let paste_x = (long_side - int (width base)) div 2;
            paste_y = (long_side - int (height base)) div 2
        in Inr (Image_paste canvas base (paste_x, paste_y))))"

text \<open>Lines 88 to 108.\<close>

definition expand_stage ::
  "bool \<Rightarrow> image \<Rightarrow> image \<Rightarrow> rgb \<Rightarrow> rgb \<Rightarrow> py_error + (image \<times> image)" where
  "expand_stage expand source_image target_image source_fill target_fill =
     (if expand
      then and_then (long_side_canvas source_image source_fill) (\<lambda>source_canvas.
           and_then (long_side_canvas target_image target_fill) (\<lambda>target_canvas.
             Inr (source_canvas, target_canvas)))
      else Inr (source_image, target_image))"

text \<open>
  Lines 110 to 115. The two calls of \<^verbatim>\<open>rotate_image\<close> are given \<^verbatim>\<open>source_image\<close> and
  \<^verbatim>\<open>target_image\<close>, the arguments of the function.
\<close>

definition rotate_stage ::
  "library \<Rightarrow> real \<Rightarrow> image \<Rightarrow> image \<Rightarrow> rgb \<Rightarrow> rgb \<Rightarrow> image \<times> image \<Rightarrow> rng
     \<Rightarrow> real option \<times> (image \<times> image) \<times> rng" where
  "rotate_stage K rot_range source_image target_image source_fill target_fill bases g =
     (if rot_range > 0
      then (case uniform (- rot_range) rot_range g of (a, g') \<Rightarrow>
              (Some a,
               (rotate_image K source_image a source_fill,
                rotate_image K target_image a target_fill), g'))
      else (None, bases, g))"

text \<open>Lines 117 to 122.\<close>

definition flip_stage ::
  "bool \<Rightarrow> image \<times> image \<Rightarrow> rng \<Rightarrow> py_error + (bool option \<times> (image \<times> image) \<times> rng)" where
  "flip_stage flip bases g =
     (if flip
      then and_then (choice [True, False] g) (\<lambda>(h, g').
             Inr (Some h, (apply_random_flip (fst bases) h, apply_random_flip (snd bases) h), g'))
      else Inr (None, bases, g))"

text \<open>Lines 129 to 132 for one image: the canvas grown by \<open>canvas_scale\<close>, and the paste.\<close>

definition grown_canvas :: "image \<Rightarrow> real \<Rightarrow> rgb \<Rightarrow> py_error + image" where
  "grown_canvas base cs fill_color =
     Image_new (py_int (real (width base) * cs), py_int (real (height base) * cs)) fill_color"

definition paste_centered :: "image \<Rightarrow> image \<Rightarrow> image" where
  "paste_centered scaled base =
     Image_paste scaled base
       (py_int ((real (width scaled) - real (width base)) / 2),
        py_int ((real (height scaled) - real (height base)) / 2))"

text \<open>Lines 124 to 135: the sampled scale, \<open>canvas_scale\<close> and the two scaled canvases.\<close>

definition scale_stage ::
  "real \<Rightarrow> real \<Rightarrow> image \<times> image \<Rightarrow> rgb \<Rightarrow> rgb \<Rightarrow> rng
     \<Rightarrow> py_error + (real \<times> (image \<times> image) \<times> rng)" where
  "scale_stage lo hi bases source_fill target_fill g =
     (case uniform lo hi g of (scale, g') \<Rightarrow>
        if scale = 0 then Inl ZeroDivisionError
        else
          let cs = 1 / scale in
          if cs > 1
          then and_then (grown_canvas (fst bases) cs source_fill) (\<lambda>scaled_source0.
               and_then (grown_canvas (snd bases) cs target_fill) (\<lambda>scaled_target0.
                 Inr (cs, (paste_centered scaled_source0 (fst bases),
                           paste_centered scaled_target0 (snd bases)), g')))
          else Inr (cs, bases, g'))"

text \<open>Lines 137 to 139 (and 141 to 143): the side of the square crop.\<close>

definition crop_size_of :: "image \<Rightarrow> real \<Rightarrow> int" where
  "crop_size_of base cs = py_int (real (min (height base) (width base)) * cs)"

text \<open>Lines 145 to 151: the sampled source offset and the target offset derived from it.\<close>

definition offset_stage ::
  "image \<Rightarrow> image \<Rightarrow> image \<Rightarrow> int \<Rightarrow> rng \<Rightarrow> py_error + ((int \<times> int) \<times> (int \<times> int) \<times> rng)" where
  "offset_stage source_image target_image scaled_src crop_src_size g =
     and_then (randint 0 (int (width scaled_src) - crop_src_size) g) (\<lambda>(left_src, g1).
     and_then (randint 0 (int (height scaled_src) - crop_src_size) g1) (\<lambda>(top_src, g2).
     and_then (py_floordiv (left_src * int (width target_image)) (int (width source_image))) (\<lambda>left_tgt.
     and_then (py_floordiv (top_src * int (height target_image)) (int (height source_image))) (\<lambda>top_tgt.
       Inr ((left_src, top_src), (left_tgt, top_tgt), g2)))))"

text \<open>\<^verbatim>\<open>process_image_pair\<close>, lines 69 to 151.\<close>

definition process_image_pair_locals ::
  "library \<Rightarrow> image \<Rightarrow> image \<Rightarrow> aug_config \<Rightarrow> rng \<Rightarrow> py_error + draw_locals" where
  "process_image_pair_locals K source_image target_image cfg g0 =
     and_then (choose_fill_color source_image
                 (source_is_edge_mode_fill cfg) (source_is_avg_color_fill cfg)) (\<lambda>source_fill.
     and_then (choose_fill_color target_image
                 (target_is_edge_mode_fill cfg) (target_is_avg_color_fill cfg)) (\<lambda>target_fill.
     and_then (expand_stage (expand_to_long_side cfg)
                 source_image target_image source_fill target_fill) (\<lambda>bases1.
     case rotate_stage K (rotation_range cfg)
            source_image target_image source_fill target_fill bases1 g0 of
       (angle_opt, bases2, g1) \<Rightarrow>
     and_then (flip_stage (is_flip cfg) bases2 g1) (\<lambda>(horizontal_opt, bases3, g2).
     and_then (scale_stage (min_scale cfg) (max_scale cfg)
                 bases3 source_fill target_fill g2) (\<lambda>(cs, scaled, g3).
     and_then (offset_stage source_image target_image
                 (fst scaled) (crop_size_of (fst bases3) cs) g3) (\<lambda>(src_off, tgt_off, g4).
       Inr \<lparr>source_fill_color = source_fill, target_fill_color = target_fill,
            angle = angle_opt, is_horizontal = horizontal_opt,
            base_source = fst bases3, base_target = snd bases3,
            canvas_scale = cs,
            scaled_source = fst scaled, scaled_target = snd scaled,
            crop_source_size = crop_size_of (fst bases3) cs,
            crop_target_size = crop_size_of (snd bases3) cs,
            left_source = fst src_off, top_source = snd src_off,
            left_target = fst tgt_off, top_target = snd tgt_off,
            rng_after = g4\<rparr>))))))"

text \<open>
  \<^verbatim>\<open>process_image_pair\<close>: lines 153 to 156 after the locals; it returns the pair, and the
  generator is left in the state after the draw.
\<close>

definition process_image_pair ::
  "library \<Rightarrow> image \<Rightarrow> image \<Rightarrow> aug_config \<Rightarrow> rng \<Rightarrow> py_error + ((image \<times> image) \<times> rng)" where
  "process_image_pair K source_image target_image cfg g =
     and_then (process_image_pair_locals K source_image target_image cfg g) (\<lambda>v.
     and_then (crop_square (scaled_source v) (left_source v) (top_source v) (crop_source_size v)) (\<lambda>cropped_source.
     and_then (Image_resize K cropped_source (output_size cfg)) (\<lambda>final_source.
     and_then (crop_square (scaled_target v) (left_target v) (top_target v) (crop_target_size v)) (\<lambda>cropped_target.
     and_then (Image_resize K cropped_target (output_size cfg)) (\<lambda>final_target.
       Inr ((final_source, final_target), rng_after v))))))"

text \<open>The loop of \<^verbatim>\<open>process_images\<close>, with the two lists it appends to.\<close>

fun process_images_loop ::
  "library \<Rightarrow> image \<Rightarrow> image \<Rightarrow> aug_config \<Rightarrow> nat \<Rightarrow> rng \<Rightarrow> image list \<Rightarrow> image list
     \<Rightarrow> py_error + ((image list \<times> image list) \<times> rng)" where
  "process_images_loop K source_img target_img cfg 0 g aug_sources aug_targets =
     Inr ((aug_sources, aug_targets), g)"
| "process_images_loop K source_img target_img cfg (Suc n) g aug_sources aug_targets =
     and_then (process_image_pair K source_img target_img cfg g) (\<lambda>(pair, g').
       process_images_loop K source_img target_img cfg n g'
         (aug_sources @ [fst pair]) (aug_targets @ [snd pair]))"

definition process_images ::
  "library \<Rightarrow> image \<Rightarrow> image \<Rightarrow> int \<Rightarrow> aug_config \<Rightarrow> rng
     \<Rightarrow> py_error + ((image list \<times> image list) \<times> rng)" where
  "process_images K source_img target_img num_copies cfg g =
     process_images_loop K source_img target_img cfg (nat num_copies) g [] []"

subsection \<open>numpy and OpenCV operations used by the sketch filter\<close>

definition channel :: "nat \<Rightarrow> rgb \<Rightarrow> u8" where
  "channel c p = (if c = 0 then fst p else if c = 1 then fst (snd p) else snd (snd p))"

text \<open>\<^verbatim>\<open>np.array(image)\<close> of an RGB image, and \<^verbatim>\<open>Image.fromarray\<close> of an array with 3 channels.\<close>

definition np_array :: "image \<Rightarrow> u8 ndarray" where
  "np_array img =
     \<lparr>nd_H = height img, nd_W = width img, nd_C = 3,
      nd_at = \<lambda>i j c. channel c (getpixel img (int j) (int i))\<rparr>"

definition Image_fromarray :: "u8 ndarray \<Rightarrow> image" where
  "Image_fromarray a =
     \<lparr>width = nd_W a, height = nd_H a,
      getpixel = \<lambda>x y. (nd_at a (nat y) (nat x) 0, nd_at a (nat y) (nat x) 1, nd_at a (nat y) (nat x) 2)\<rparr>"

text \<open>\<^verbatim>\<open>np.round\<close> rounds halves to the even neighbour; the result is passed to \<^verbatim>\<open>int\<close>.\<close>

definition np_round :: "real \<Rightarrow> int" where
  "np_round x =
     (let f = \<lfloor>x\<rfloor>; d = x - of_int f in
      if d < 1 / 2 then f else if 1 / 2 < d then f + 1 else if even f then f else f + 1)"

definition np_clip :: "real \<Rightarrow> real \<Rightarrow> real \<Rightarrow> real" where
  "np_clip x lo hi = min (max x lo) hi"

text \<open>\<^verbatim>\<open>.astype(np.uint8)\<close> of a float: truncation, then the low 8 bits.\<close>

definition astype_uint8 :: "real \<Rightarrow> u8" where
  "astype_uint8 x = word_of_int (py_int x)"

definition astype_float32 :: "u8 ndarray \<Rightarrow> real ndarray" where
  "astype_float32 a =
     \<lparr>nd_H = nd_H a, nd_W = nd_W a, nd_C = nd_C a, nd_at = \<lambda>i j c. real (unat (nd_at a i j c))\<rparr>"

text \<open>\<^verbatim>\<open>cv2.resize(img, (W, H), interpolation=...)\<close>; an empty target size is an error.\<close>

definition cv2_resize ::
  "library \<Rightarrow> u8 ndarray \<Rightarrow> int \<times> int \<Rightarrow> interpolation \<Rightarrow> py_error + u8 ndarray" where
  "cv2_resize K img dsize interp =
     (case dsize of (w, h) \<Rightarrow>
        if w \<le> 0 \<or> h \<le> 0 \<or> nd_H img = 0 \<or> nd_W img = 0 then Inl Cv2Error
        else Inr \<lparr>nd_H = nat h, nd_W = nat w, nd_C = nd_C img,
                  nd_at = cv2_resize_px K img (nat h) (nat w) interp\<rparr>)"

text \<open>\<^verbatim>\<open>cv2.GaussianBlur(img, (0, 0), sigma)\<close>: the shape is kept.\<close>

definition cv2_GaussianBlur :: "library \<Rightarrow> real ndarray \<Rightarrow> real \<Rightarrow> real ndarray" where
  "cv2_GaussianBlur K img sigma = img\<lparr>nd_at := cv2_GaussianBlur_px K img sigma\<rparr>"

text \<open>\<^verbatim>\<open>np.pad(img, [[0, H_pad], [0, W_pad], [0, 0]], mode='edge')\<close>.\<close>

definition np_pad_edge :: "u8 ndarray \<Rightarrow> int \<Rightarrow> int \<Rightarrow> py_error + u8 ndarray" where
  "np_pad_edge img H_pad W_pad =
     (if H_pad < 0 \<or> W_pad < 0 then Inl ValueError
      else Inr \<lparr>nd_H = nd_H img + nat H_pad, nd_W = nd_W img + nat W_pad, nd_C = nd_C img,
                nd_at = \<lambda>i j c. nd_at img (min i (nd_H img - 1)) (min j (nd_W img - 1)) c\<rparr>)"

text \<open>\<^verbatim>\<open>np.min(a, axis=2)\<close>.\<close>

definition np_min_axis2 :: "real ndarray \<Rightarrow> nat \<Rightarrow> nat \<Rightarrow> real" where
  "np_min_axis2 a i j = fold (\<lambda>c m. min m (nd_at a i j c)) [1..<nd_C a] (nd_at a i j 0)"

subsection \<open>lineart\_util.py\<close>

definition pad64 :: "int \<Rightarrow> int" where
  "pad64 x = py_int (of_int \<lceil>of_int x / (64 :: real)\<rceil> * 64 - of_int x)"

text \<open>
  \<^verbatim>\<open>HWC3\<close>. The dtype assertion holds by typing; a 2-dimensional array is the array of
  one channel that \<^verbatim>\<open>x[:, :, None]\<close> makes of it.
\<close>

definition HWC3 :: "u8 ndarray \<Rightarrow> py_error + u8 ndarray" where
  "HWC3 x =
     (if \<not> (nd_C x = 1 \<or> nd_C x = 3 \<or> nd_C x = 4) then Inl AssertionError
      else if nd_C x = 3 then Inr x
      else if nd_C x = 1 then Inr (x\<lparr>nd_C := 3, nd_at := \<lambda>i j c. nd_at x i j 0\<rparr>)
      else Inr (x\<lparr>nd_C := 3, nd_at := \<lambda>i j c.
             let color = real (unat (nd_at x i j c));
                 alpha = real (unat (nd_at x i j 3)) / 255;
                 y = color * alpha + 255 * (1 - alpha)
             in astype_uint8 (np_clip y 0 255)\<rparr>))"

definition remove_pad :: "nat \<times> nat \<Rightarrow> 'a ndarray \<Rightarrow> 'a ndarray" where
  "remove_pad target x =
     (case target of (H_target, W_target) \<Rightarrow>
        x\<lparr>nd_H := min H_target (nd_H x), nd_W := min W_target (nd_W x)\<rparr>)"

text \<open>
  \<^verbatim>\<open>resize_image_with_pad\<close> (with \<^verbatim>\<open>skip_hwc3=False\<close>, its only use): the padded image
  and the target size that \<^verbatim>\<open>remove_pad\<close> closes over.
\<close>

definition resize_image_with_pad ::
  "library \<Rightarrow> u8 ndarray \<Rightarrow> int \<Rightarrow> py_error + (u8 ndarray \<times> (nat \<times> nat))" where
  "resize_image_with_pad K input_image resolution =
     and_then (HWC3 input_image) (\<lambda>img.
       let H_raw = nd_H img; W_raw = nd_W img in
       if min H_raw W_raw = 0 then Inl ZeroDivisionError
       else
         let k = of_int resolution / real (min H_raw W_raw);
             interp = (if k > 1 then INTER_CUBIC else INTER_AREA);
             H_target = np_round (real H_raw * k);
             W_target = np_round (real W_raw * k)
         in
         and_then (cv2_resize K img (W_target, H_target) interp) (\<lambda>resized.
         and_then (np_pad_edge resized (pad64 H_target) (pad64 W_target)) (\<lambda>img_padded.
           Inr (img_padded, (nat H_target, nat W_target)))))"

text \<open>Line 63: the 8-bit difference-of-Gaussians value of the pixel in row \<open>i\<close>, column \<open>j\<close>.\<close>

definition xdog_dog :: "real ndarray \<Rightarrow> real ndarray \<Rightarrow> nat \<Rightarrow> nat \<Rightarrow> u8" where
  "xdog_dog g1 g2 i j =
     astype_uint8 (np_clip
       (255 - np_min_axis2 (g2\<lparr>nd_at := \<lambda>i j c. nd_at g2 i j c - nd_at g1 i j c\<rparr>) i j) 0 255)"

text \<open>
  Lines 64 and 65 for one pixel. \<^verbatim>\<open>2 * (255 - dog)\<close> is computed on uint8 values, so it is
  an 8-bit product; the comparison with the Python integer \<^verbatim>\<open>thr_a\<close> is on integers.
\<close>

definition xdog_binarize :: "u8 \<Rightarrow> int \<Rightarrow> u8" where
  "xdog_binarize dog thr_a = (if thr_a < uint (2 * (255 - dog)) then 255 else 0)"

text \<open>The array \<open>dog\<close> of \<^verbatim>\<open>scribble_xdog\<close> for a padded image.\<close>

definition dog_of :: "library \<Rightarrow> u8 ndarray \<Rightarrow> nat \<Rightarrow> nat \<Rightarrow> u8" where
  "dog_of K img =
     (let g1 = cv2_GaussianBlur K (astype_float32 img) 0.5;
          g2 = cv2_GaussianBlur K (astype_float32 img) 5.0
      in xdog_dog g1 g2)"

definition scribble_xdog ::
  "library \<Rightarrow> u8 ndarray \<Rightarrow> int \<Rightarrow> int \<Rightarrow> py_error + (image \<times> bool)" where
  "scribble_xdog K img res thr_a =
     and_then (resize_image_with_pad K img res) (\<lambda>(padded, target).
       let dog = dog_of K padded;
           result = padded\<lparr>nd_at := \<lambda>i j c. xdog_binarize (dog i j) thr_a\<rparr>
       in Inr (Image_fromarray (remove_pad target result), True))"

subsection \<open>convert\_source\_to\_sketch.py\<close>

definition cvtColor_RGB2BGR :: "u8 ndarray \<Rightarrow> u8 ndarray" where
  "cvtColor_RGB2BGR a = a\<lparr>nd_at := \<lambda>i j c. nd_at a i j (2 - c)\<rparr>"

definition convert_pil_to_sketch :: "library \<Rightarrow> image \<Rightarrow> py_error + image" where
  "convert_pil_to_sketch K img =
     (let input_width = int (width img); input_height = int (height img) in
      and_then (scribble_xdog K (np_array img) 2048 16) (\<lambda>(processed, _).
      and_then (Image_resize K processed (input_width, input_height)) (\<lambda>resized.
        let bgr = cvtColor_RGB2BGR (np_array resized) in
        Inr (Image_fromarray (bgr\<lparr>nd_at := \<lambda>i j c. 255 - nd_at bgr i j c\<rparr>)))))"

subsection \<open>Notions used to state the properties\<close>


text \<open>Every pixel inside the size of the image is \<open>p\<close>.\<close>

definition solid_image :: "image \<Rightarrow> rgb \<Rightarrow> bool" where
  "solid_image img p \<longleftrightarrow>
     (\<forall>x y. 0 \<le> x \<and> x < int (width img) \<and> 0 \<le> y \<and> y < int (height img)
        \<longrightarrow> getpixel img x y = p)"

text \<open>Every element inside the shape of the array is the value \<open>v c\<close> of its channel.\<close>

definition solid_array :: "'a ndarray \<Rightarrow> (nat \<Rightarrow> 'a) \<Rightarrow> bool" where
  "solid_array a v \<longleftrightarrow> (\<forall>i j c. i < nd_H a \<and> j < nd_W a \<and> c < nd_C a \<longrightarrow> nd_at a i j c = v c)"

text \<open>
  The interpolation and blur kernels of the library are normalised: resampling a
  non-empty image of one colour gives that colour at every pixel, and blurring it
  changes no value by more than 1 (an exactly normalised kernel changes none; the bound
  leaves room for the rounding of a floating-point convolution).
\<close>

definition normalised_kernels :: "library \<Rightarrow> bool" where
  "normalised_kernels K \<longleftrightarrow>
     (\<forall>a h w m v i j c. 0 < nd_H a \<and> 0 < nd_W a \<and> solid_array a v \<and> i < h \<and> j < w \<and> c < nd_C a
        \<longrightarrow> cv2_resize_px K a h w m i j c = v c) \<and>
     (\<forall>a sigma v i j c. 0 < nd_H a \<and> 0 < nd_W a \<and> solid_array a v \<and> i < nd_H a \<and> j < nd_W a \<and> c < nd_C a
        \<longrightarrow> \<bar>cv2_GaussianBlur_px K a sigma i j c - v c\<bar> \<le> 1) \<and>
     (\<forall>img w h p x y. 0 < width img \<and> 0 < height img \<and> solid_image img p \<and>
          0 \<le> x \<and> x < int w \<and> 0 \<le> y \<and> y < int h
        \<longrightarrow> Image_resize_px K img w h x y = p)"







text \<open>
  The specification's reading of the binarisation: white where \<open>2 \<times> (255 - dog)\<close> exceeds
  the doubled threshold 32.
\<close>

definition spec_white_at_doubled_threshold :: "u8 \<Rightarrow> bool" where
  "spec_white_at_doubled_threshold dog \<longleftrightarrow> 32 < 2 * (255 - uint dog)"

subsection \<open>Concrete inputs\<close>

text \<open>The default values of the keyword parameters of \<^verbatim>\<open>process_image_pair\<close>.\<close>

definition default_config :: aug_config where
  "default_config =
     \<lparr>output_size = (1024, 1024), is_flip = False, rotation_range = 40,
      min_scale = 6 / 10, max_scale = 12 / 10,
      source_is_avg_color_fill = False, source_is_edge_mode_fill = False,
      target_is_avg_color_fill = True, target_is_edge_mode_fill = False,
      expand_to_long_side = False\<rparr>"

text \<open>
  A configuration without rotation, flip or rescaling, with white fill colours and a
  square output of side \<open>n\<close>.
\<close>

definition plain_config :: "int \<Rightarrow> aug_config" where
  "plain_config n =
     default_config\<lparr>output_size := (n, n), rotation_range := 0, min_scale := 1, max_scale := 1,
       target_is_avg_color_fill := False\<rparr>"

text \<open>An image whose pixel at \<open>(x, y)\<close> is \<open>(x, y, 0)\<close>, so that pixels tell their origin.\<close>

definition coordinate_image :: "nat \<Rightarrow> nat \<Rightarrow> image" where
  "coordinate_image w h = \<lparr>width = w, height = h, getpixel = \<lambda>x y. (word_of_int x, word_of_int y, 0)\<rparr>"

text \<open>An image of one colour.\<close>

definition solid_color_image :: "nat \<Rightarrow> nat \<Rightarrow> rgb \<Rightarrow> image" where
  "solid_color_image w h p = \<lparr>width = w, height = h, getpixel = \<lambda>x y. p\<rparr>"

text \<open>A generator whose raw outputs are the given numbers, then zeros.\<close>

definition rng_of :: "nat list \<Rightarrow> rng" where
  "rng_of xs = (\<lambda>i. if i < length xs then xs ! i else 0)"

text \<open>
  A \<open>2048 \<times> 2048\<close> image of grey rows: the rows above row 1000 and row 1500 are black,
  the rows 1499 and 1501 are white, and the other rows have the level 40.
\<close>

definition grey_bands_image :: image where
  "grey_bands_image =
     \<lparr>width = 2048, height = 2048,
      getpixel = \<lambda>x y. if y < 1000 \<or> y = 1500 then (0, 0, 0)
                        else if y = 1499 \<or> y = 1501 then (255, 255, 255)
                        else (40, 40, 40)\<rparr>"

text \<open>
  A library instance: the half turn as rotation (what Pillow does for an angle of 180
  degrees), nearest-neighbour resampling, and as blur the identity for a \<open>sigma\<close> below 1
  and a vertical 3-tap kernel with replicated edges otherwise.
\<close>

definition example_library :: library where
  "example_library =
     \<lparr>Image_rotate_px = (\<lambda>img a fill.
        img\<lparr>getpixel := \<lambda>x y. getpixel img (int (width img) - 1 - x) (int (height img) - 1 - y)\<rparr>),
      Image_resize_px = (\<lambda>img w h x y.
        getpixel img (x * int (width img) div int w) (y * int (height img) div int h)),
      cv2_resize_px = (\<lambda>a h w m i j c. nd_at a (i * nd_H a div h) (j * nd_W a div w) c),
      cv2_GaussianBlur_px = (\<lambda>a sigma i j c.
        if sigma < 1 then nd_at a i j c
        else (nd_at a (i - 1) j c + 2 * nd_at a i j c + nd_at a (min (i + 1) (nd_H a - 1)) j c) / 4)\<rparr>"

text \<open>
  The padded working image that \<^verbatim>\<open>resize_image_with_pad\<close> makes of \<open>grey_bands_image\<close>
  at resolution 2048 with the example library.
\<close>

definition grey_bands_padded :: "u8 ndarray" where
  "grey_bands_padded = \<lparr>nd_H = 2048, nd_W = 2048, nd_C = 3,
      nd_at = \<lambda>i j c. cv2_resize_px example_library (np_array grey_bands_image) 2048 2048 INTER_AREA
         (min i 2047) (min j 2047) c\<rparr>"

section \<open>Auxiliary facts\<close>

subsection \<open>Results and stages\<close>

lemma and_then_Inr_iff: "and_then m f = Inr y \<longleftrightarrow> (\<exists>x. m = Inr x \<and> f x = Inr y)"
  by (cases m) (simp_all add: and_then_def)

lemma and_then_Inr [simp]: "and_then (Inr x) f = f x"
  by (simp add: and_then_def)

lemma and_then_Inl [simp]: "and_then (Inl e) f = Inl e"
  by (simp add: and_then_def)

lemma length_getdata: "length (getdata img) = width img * height img"
  unfolding getdata_def
  by (simp add: length_concat comp_def sum_list_triv)

lemma random_range: "0 \<le> fst (random g) \<and> fst (random g) < 1"
  by (simp add: random_def next_raw_def)

lemma uniform_lower:
  assumes "lo \<le> hi"
  shows "lo \<le> fst (uniform lo hi g)"
proof -
  have "0 \<le> (hi - lo) * fst (random g)"
    using assms random_range[of g] by simp
  then show ?thesis
    by (simp add: uniform_def case_prod_beta)
qed

lemma most_common1_nonempty: "xs \<noteq> [] \<Longrightarrow> \<exists>c. most_common1 xs = Inr c"
  by (cases xs) (simp_all add: most_common1_def)

lemma edge_colors_ok:
  assumes "0 \<le> e"
  shows "\<exists>cs. edge_colors img e = Inr cs \<and> length cs = 2 * nat e * height img + 2 * nat e * width img"
  using assms unfolding edge_colors_def
  by (simp add: Image_crop_def length_getdata nat_diff_distrib algebra_simps)

lemma get_edge_mode_color_ok:
  assumes "0 < width img \<or> 0 < height img"
  shows "\<exists>c. get_edge_mode_color img 10 = Inr c"
proof -
  obtain cs where cs: "edge_colors img 10 = Inr cs"
    and len: "length cs = 2 * nat 10 * height img + 2 * nat 10 * width img"
    using edge_colors_ok[of 10 img] by auto
  from len assms have "cs \<noteq> []" by auto
  then show ?thesis
    using most_common1_nonempty[of cs] by (simp add: get_edge_mode_color_def cs)
qed

lemma get_average_color_ok:
  assumes "0 < width img" "0 < height img"
  shows "\<exists>c. get_average_color img = Inr c"
proof -
  have "length (getdata img) \<noteq> 0"
    using assms by (simp add: length_getdata)
  then show ?thesis
    unfolding get_average_color_def Let_def by simp
qed

lemma choose_fill_color_ok:
  assumes "0 < width img" "0 < height img"
  shows "\<exists>c. choose_fill_color img e a = Inr c"
  using assms get_edge_mode_color_ok[of img] get_average_color_ok[of img]
  by (auto simp: choose_fill_color_def)

lemma long_side_canvas_ok: "\<exists>c. long_side_canvas img f = Inr c \<and> width c = max (width img) (height img) \<and> height c = max (width img) (height img)"
  by (simp add: long_side_canvas_def Let_def Image_new_def Image_paste_def)

lemma expand_stage_ok: "\<exists>b. expand_stage e s t sf tf = Inr b"
  using long_side_canvas_ok[of s sf] long_side_canvas_ok[of t tf]
  by (auto simp: expand_stage_def)

lemma flip_stage_ok: "\<exists>h b' g'. flip_stage f b g = Inr (h, b', g')"
  by (simp add: flip_stage_def choice_def next_raw_def)

lemma py_int_nonneg: "0 \<le> x \<Longrightarrow> 0 \<le> py_int x"
  by (simp add: py_int_def)

lemma py_int_mono: "0 \<le> x \<Longrightarrow> x \<le> y \<Longrightarrow> py_int x \<le> py_int y"
  by (simp add: py_int_def floor_mono)

lemma py_int_le_nat: "0 \<le> x \<Longrightarrow> x \<le> real n \<Longrightarrow> py_int x \<le> int n"
  by (simp add: py_int_def floor_le_iff) 

lemma randint_ok:
  assumes "a \<le> b"
  shows "\<exists>r g'. randint a b g = Inr (r, g') \<and> a \<le> r \<and> r \<le> b"
proof -
  have pos: "0 < nat (b + 1 - a)" using assms by simp
  have "fst (next_raw g) mod nat (b + 1 - a) < nat (b + 1 - a)"
    using pos by (rule mod_less_divisor)
  then have "int (fst (next_raw g) mod nat (b + 1 - a)) < int (nat (b + 1 - a))"
    by (simp only: of_nat_less_iff)
  also have "int (nat (b + 1 - a)) = b + 1 - a"
    using assms by simp
  finally have "a + int (fst (next_raw g) mod nat (b + 1 - a)) \<le> b"
    by simp
  then show ?thesis
    using assms by (simp add: randint_def case_prod_beta)
qed

lemma grown_canvas_ok:
  assumes "0 \<le> cs"
  shows "\<exists>c. grown_canvas base cs f = Inr c \<and>
             int (width c) = py_int (real (width base) * cs) \<and>
             int (height c) = py_int (real (height base) * cs)"
proof -
  have "0 \<le> py_int (real (width base) * cs)" "0 \<le> py_int (real (height base) * cs)"
    using assms by (simp_all add: py_int_nonneg)
  then show ?thesis
    by (simp add: grown_canvas_def Image_new_def)
qed

lemma paste_centered_size [simp]:
  "width (paste_centered c b) = width c" "height (paste_centered c b) = height c"
  by (simp_all add: paste_centered_def Image_paste_def)

lemma crop_size_of_bounds:
  assumes "0 \<le> cs"
  shows "0 \<le> crop_size_of base cs"
    and "crop_size_of base cs \<le> py_int (real (width base) * cs)"
    and "crop_size_of base cs \<le> py_int (real (height base) * cs)"
    and "cs \<le> 1 \<Longrightarrow> crop_size_of base cs \<le> int (width base)"
    and "cs \<le> 1 \<Longrightarrow> crop_size_of base cs \<le> int (height base)"
proof -
  let ?m = "real (min (height base) (width base))"
  have m0: "0 \<le> ?m * cs" using assms by simp
  show "0 \<le> crop_size_of base cs"
    unfolding crop_size_of_def using m0 by (rule py_int_nonneg)
  have "?m * cs \<le> real (width base) * cs"
    using assms by (intro mult_right_mono) simp_all
  then show "crop_size_of base cs \<le> py_int (real (width base) * cs)"
    unfolding crop_size_of_def using m0 by (intro py_int_mono)
  have "?m * cs \<le> real (height base) * cs"
    using assms by (intro mult_right_mono) simp_all
  then show "crop_size_of base cs \<le> py_int (real (height base) * cs)"
    unfolding crop_size_of_def using m0 by (intro py_int_mono)
  {
    assume le1: "cs \<le> 1"
    have "?m * cs \<le> ?m * 1"
      using le1 by (intro mult_left_mono) simp_all
    then have a: "?m * cs \<le> real (width base)" and b: "?m * cs \<le> real (height base)"
      by simp_all
    show "crop_size_of base cs \<le> int (width base)"
      unfolding crop_size_of_def using m0 a by (rule py_int_le_nat)
    show "crop_size_of base cs \<le> int (height base)"
      unfolding crop_size_of_def using m0 b by (rule py_int_le_nat)
  }
qed

lemma scale_stage_ok:
  assumes "0 < lo" "lo \<le> hi"
  shows "\<exists>cs sc g'. scale_stage lo hi b sf tf g = Inr (cs, sc, g') \<and> 0 < cs \<and>
           crop_size_of (fst b) cs \<le> int (width (fst sc)) \<and>
           crop_size_of (fst b) cs \<le> int (height (fst sc))"
proof -
  obtain scale g' where u: "uniform lo hi g = (scale, g')" by (cases "uniform lo hi g")
  from uniform_lower[OF assms(2), of g] u have "lo \<le> scale" by simp
  with assms have sp: "0 < scale" by simp
  define cs where "cs = 1 / scale"
  have cs: "0 < cs" using sp by (simp add: cs_def)
  show ?thesis
  proof (cases "cs > 1")
    case True
    obtain c1 where c1: "grown_canvas (fst b) cs sf = Inr c1"
      "int (width c1) = py_int (real (width (fst b)) * cs)"
      "int (height c1) = py_int (real (height (fst b)) * cs)"
      using grown_canvas_ok[of cs "fst b" sf] cs by auto
    obtain c2 where c2: "grown_canvas (snd b) cs tf = Inr c2"
      using grown_canvas_ok[of cs "snd b" tf] cs by auto
    have "scale_stage lo hi b sf tf g =
        Inr (cs, (paste_centered c1 (fst b), paste_centered c2 (snd b)), g')"
      using sp True by (simp add: scale_stage_def u Let_def cs_def[symmetric] c1 c2)
    moreover have "crop_size_of (fst b) cs \<le> int (width c1)" "crop_size_of (fst b) cs \<le> int (height c1)"
      using crop_size_of_bounds(2,3)[of cs "fst b"] cs c1 by simp_all
    ultimately show ?thesis using cs by simp
  next
    case False
    have "scale_stage lo hi b sf tf g = Inr (cs, b, g')"
      using sp False by (simp add: scale_stage_def u Let_def cs_def[symmetric])
    moreover have "crop_size_of (fst b) cs \<le> int (width (fst b))" "crop_size_of (fst b) cs \<le> int (height (fst b))"
      using crop_size_of_bounds(4,5)[of cs "fst b"] cs False by simp_all
    ultimately show ?thesis using cs by simp
  qed
qed

lemma py_floordiv_Inr_iff: "py_floordiv a b = Inr q \<longleftrightarrow> b \<noteq> 0 \<and> q = a div b"
  by (auto simp: py_floordiv_def)

lemma offset_stage_Inr:
  assumes "offset_stage s t sc c g = Inr ((l, u), (lt, ut), g')"
  shows "width s \<noteq> 0 \<and> height s \<noteq> 0 \<and>
         lt = l * int (width t) div int (width s) \<and>
         ut = u * int (height t) div int (height s)"
  using assms unfolding offset_stage_def
  by (auto simp: and_then_Inr_iff py_floordiv_Inr_iff split: prod.splits)

lemma locals_Inr_D:
  assumes "process_image_pair_locals K s t cfg g = Inr v"
  shows "\<exists>sf tf b1 a b2 g1 h b3 g2 cs sc g3 so to g4.
     choose_fill_color s (source_is_edge_mode_fill cfg) (source_is_avg_color_fill cfg) = Inr sf \<and>
     choose_fill_color t (target_is_edge_mode_fill cfg) (target_is_avg_color_fill cfg) = Inr tf \<and>
     expand_stage (expand_to_long_side cfg) s t sf tf = Inr b1 \<and>
     rotate_stage K (rotation_range cfg) s t sf tf b1 g = (a, b2, g1) \<and>
     flip_stage (is_flip cfg) b2 g1 = Inr (h, b3, g2) \<and>
     scale_stage (min_scale cfg) (max_scale cfg) b3 sf tf g2 = Inr (cs, sc, g3) \<and>
     offset_stage s t (fst sc) (crop_size_of (fst b3) cs) g3 = Inr (so, to, g4) \<and>
     v = \<lparr>source_fill_color = sf, target_fill_color = tf,
            angle = a, is_horizontal = h,
            base_source = fst b3, base_target = snd b3,
            canvas_scale = cs,
            scaled_source = fst sc, scaled_target = snd sc,
            crop_source_size = crop_size_of (fst b3) cs,
            crop_target_size = crop_size_of (snd b3) cs,
            left_source = fst so, top_source = snd so,
            left_target = fst to, top_target = snd to,
            rng_after = g4\<rparr>"
  using assms unfolding process_image_pair_locals_def
  apply (clarsimp simp: and_then_Inr_iff case_prod_beta)
  subgoal for a aa b ab ac ba ad bb
    by (cases "rotate_stage K (rotation_range cfg) s t (a, aa, b) (ab, ac, ba) (ad, bb) g") auto
  done

lemma locals_offsets:
  assumes "process_image_pair_locals K s t cfg g = Inr v"
  shows "width s \<noteq> 0 \<and> height s \<noteq> 0 \<and>
         left_target v = left_source v * int (width t) div int (width s) \<and>
         top_target v = top_source v * int (height t) div int (height s)"
proof -
  from locals_Inr_D[OF assms] obtain sf tf b1 a b2 g1 h b3 g2 cs sc g3 so to g4 where
    off: "offset_stage s t (fst sc) (crop_size_of (fst b3) cs) g3 = Inr (so, to, g4)" and
    v: "v = \<lparr>source_fill_color = sf, target_fill_color = tf,
            angle = a, is_horizontal = h,
            base_source = fst b3, base_target = snd b3,
            canvas_scale = cs,
            scaled_source = fst sc, scaled_target = snd sc,
            crop_source_size = crop_size_of (fst b3) cs,
            crop_target_size = crop_size_of (snd b3) cs,
            left_source = fst so, top_source = snd so,
            left_target = fst to, top_target = snd to,
            rng_after = g4\<rparr>"
    by blast
  from offset_stage_Inr[of s t "fst sc" _ g3 "fst so" "snd so" "fst to" "snd to" g4] off
  show ?thesis by (simp add: v)
qed

lemma rng_of_next [simp]: "next_raw (rng_of (x # xs)) = (x, rng_of xs)"
  by (auto simp: next_raw_def rng_of_def fun_eq_iff)

lemma rng_of_Nil_next [simp]: "next_raw (rng_of []) = (0, rng_of [])"
  by (auto simp: next_raw_def rng_of_def fun_eq_iff)

subsection \<open>Auxiliary facts about the paired augmentation\<close>

lemma process_image_pair_Inr_D:
  assumes "process_image_pair K s t cfg g = Inr ((fs, ft), g')"
  shows "\<exists>v cs ct. process_image_pair_locals K s t cfg g = Inr v \<and>
     crop_square (scaled_source v) (left_source v) (top_source v) (crop_source_size v) = Inr cs \<and>
     Image_resize K cs (output_size cfg) = Inr fs \<and>
     crop_square (scaled_target v) (left_target v) (top_target v) (crop_target_size v) = Inr ct \<and>
     Image_resize K ct (output_size cfg) = Inr ft \<and> g' = rng_after v"
  using assms unfolding process_image_pair_def
  by (auto simp: and_then_Inr_iff)

lemma Image_resize_size:
  assumes "Image_resize K img (w, h) = Inr r"
  shows "int (width r) = w \<and> int (height r) = h"
  using assms by (auto simp: Image_resize_def split: if_splits)

lemma process_image_pair_size:
  assumes "process_image_pair K s t cfg g = Inr ((fs, ft), g')" "output_size cfg = (w, h)"
  shows "int (width fs) = w \<and> int (height fs) = h \<and> int (width ft) = w \<and> int (height ft) = h"
proof -
  from process_image_pair_Inr_D[OF assms(1)] obtain cs ct where
    "Image_resize K cs (output_size cfg) = Inr fs" "Image_resize K ct (output_size cfg) = Inr ft"
    by blast
  then show ?thesis
    using Image_resize_size[of K cs w h fs] Image_resize_size[of K ct w h ft] assms(2) by simp
qed

lemma process_images_loop_sizes:
  assumes "process_images_loop K s t cfg k g srcs tgts = Inr ((srcs', tgts'), g')"
    and "output_size cfg = (w, h)"
    and "\<forall>a \<in> set srcs. int (width a) = w \<and> int (height a) = h"
    and "\<forall>b \<in> set tgts. int (width b) = w \<and> int (height b) = h"
  shows "length srcs' = length srcs + k \<and> length tgts' = length tgts + k \<and>
         (\<forall>a \<in> set srcs'. int (width a) = w \<and> int (height a) = h) \<and>
         (\<forall>b \<in> set tgts'. int (width b) = w \<and> int (height b) = h)"
  using assms
proof (induction k arbitrary: g srcs tgts)
  case 0
  then show ?case by simp
next
  case (Suc k)
  from Suc.prems(1) obtain fs ft g1 where
    pair: "process_image_pair K s t cfg g = Inr ((fs, ft), g1)" and
    rest: "process_images_loop K s t cfg k g1 (srcs @ [fs]) (tgts @ [ft]) = Inr ((srcs', tgts'), g')"
    by (auto simp: and_then_Inr_iff)
  from process_image_pair_size[OF pair Suc.prems(2)]
  have sz: "int (width fs) = w \<and> int (height fs) = h" "int (width ft) = w \<and> int (height ft) = h"
    by simp_all
  have a: "\<forall>a \<in> set (srcs @ [fs]). int (width a) = w \<and> int (height a) = h"
    using Suc.prems(3) sz(1) by auto
  have b: "\<forall>b \<in> set (tgts @ [ft]). int (width b) = w \<and> int (height b) = h"
    using Suc.prems(4) sz(2) by auto
  from Suc.IH[OF rest Suc.prems(2) a b] show ?case by simp
qed

text \<open>The definitions unfolded to run the augmenter on a concrete input.\<close>

lemmas run_defs = process_image_pair_def process_image_pair_locals_def choose_fill_color_def
  expand_stage_def rotate_stage_def flip_stage_def scale_stage_def offset_stage_def
  crop_size_of_def uniform_def random_def randint_def choice_def py_floordiv_def py_int_def
  long_side_canvas_def grown_canvas_def paste_centered_def Image_new_def Image_paste_def
  rotate_image_def py_fmod_def apply_random_flip_def mirror_def crop_square_def Image_crop_def
  Image_resize_def plain_config_def default_config_def coordinate_image_def Let_def

lemma offset_stage_ok:
  assumes "c \<le> int (width sc)" "c \<le> int (height sc)" "0 < width s" "0 < height s"
  shows "\<exists>l u lt ut g'. offset_stage s t sc c g = Inr ((l, u), (lt, ut), g') \<and>
           0 \<le> l \<and> l + c \<le> int (width sc) \<and> 0 \<le> u \<and> u + c \<le> int (height sc)"
proof -
  obtain l g1 where l: "randint 0 (int (width sc) - c) g = Inr (l, g1)" "0 \<le> l" "l \<le> int (width sc) - c"
    using randint_ok[of 0 "int (width sc) - c" g] assms(1) by auto
  obtain u g2 where u: "randint 0 (int (height sc) - c) g1 = Inr (u, g2)" "0 \<le> u" "u \<le> int (height sc) - c"
    using randint_ok[of 0 "int (height sc) - c" g1] assms(2) by auto
  show ?thesis
    using l u assms(3,4) by (simp add: offset_stage_def py_floordiv_def)
qed

lemma rotate_stage_D:
  assumes "rotate_stage K rr s t sf tf b g = (a, b2, g1)"
  shows "(0 < rr \<longrightarrow> a = Some (fst (uniform (- rr) rr g))) \<and> (\<not> 0 < rr \<longrightarrow> a = None) \<and>
         b2 = (case a of None \<Rightarrow> b
               | Some x \<Rightarrow> (rotate_image K s x sf, rotate_image K t x tf))"
  using assms by (auto simp: rotate_stage_def case_prod_beta split: if_splits)

lemma flip_stage_D:
  assumes "flip_stage f b g = Inr (h, b3, g')"
  shows "(f \<longrightarrow> h \<noteq> None) \<and> (\<not> f \<longrightarrow> h = None) \<and>
         b3 = (case h of None \<Rightarrow> b
               | Some x \<Rightarrow> (apply_random_flip (fst b) x, apply_random_flip (snd b) x))"
  using assms by (auto simp: flip_stage_def and_then_Inr_iff split: if_splits)























subsection \<open>Auxiliary facts about the sketch conversion\<close>

lemma uint_255_minus:
  fixes d :: u8
  shows "uint (255 - d) = 255 - uint d"
proof -
  have d: "uint d < 256" using uint_lt2p[of d] by simp
  have d0: "0 \<le> uint d" by simp
  have "(255 - uint d) mod 256 = 255 - uint d"
    using d d0 by (intro mod_pos_pos_trivial) linarith+
  then show ?thesis
    by (simp add: uint_word_ariths uint_numeral)
qed

lemma xdog_binarize_no_overflow:
  fixes d :: u8
  assumes "128 \<le> uint d"
  shows "uint (2 * (255 - d)) = 2 * (255 - uint d)"
proof -
  have d: "uint d < 256" using uint_lt2p[of d] by simp
  have p1: "0 \<le> 2 * (255 - uint d)" using d by simp
  have p2: "2 * (255 - uint d) < 256" using assms by simp
  have t: "(2 * (255 - uint d)) mod 256 = 2 * (255 - uint d)"
    using p1 p2 by (rule mod_pos_pos_trivial)
  have m: "uint (2 * (255 - d)) = uint (2 :: 8 word) * uint (255 - d) mod 2 ^ LENGTH(8)"
    by (rule uint_word_ariths)
  have two: "uint (2 :: 8 word) = 2" by simp
  have len: "(2 :: int) ^ LENGTH(8) = 256" by simp
  show ?thesis
    unfolding m two uint_255_minus len by (rule t)
qed

lemma xdog_binarize_overflow:
  fixes d :: u8
  assumes "uint d \<le> 127"
  shows "uint (2 * (255 - d)) = 254 - 2 * uint d"
proof -
  have d0: "0 \<le> uint d" by simp
  have p1: "0 \<le> 254 - 2 * uint d" using assms by linarith
  have p2: "254 - 2 * uint d < 256" using d0 by linarith
  have "(2 * (255 - uint d)) mod 256 = (254 - 2 * uint d + 256) mod 256"
    by (simp add: algebra_simps)
  also have "\<dots> = (254 - 2 * uint d) mod 256"
    by (rule mod_add_self2)
  also have "\<dots> = 254 - 2 * uint d"
    using p1 p2 by (rule mod_pos_pos_trivial)
  finally have t: "(2 * (255 - uint d)) mod 256 = 254 - 2 * uint d" .
  have m: "uint (2 * (255 - d)) = uint (2 :: 8 word) * uint (255 - d) mod 2 ^ LENGTH(8)"
    by (rule uint_word_ariths)
  have two: "uint (2 :: 8 word) = 2" by simp
  have len: "(2 :: int) ^ LENGTH(8) = 256" by simp
  show ?thesis
    unfolding m two uint_255_minus len by (rule t)
qed

lemma xdog_binarize_as_passed:
  assumes "128 \<le> uint d"
  shows "xdog_binarize d thr = (if thr < 2 * (255 - uint d) then 255 else 0)"
  using xdog_binarize_no_overflow[OF assms] by (simp add: xdog_binarize_def)

lemma xdog_binarize_16:
  "xdog_binarize d 16 =
     (if 119 \<le> uint d \<and> uint d \<le> 127 then 0
      else if 16 < 2 * (255 - uint d) then 255 else 0)"
proof (cases "128 \<le> uint d")
  case True
  from xdog_binarize_as_passed[OF True, of 16] True show ?thesis by simp
next
  case False
  then have le: "uint d \<le> 127" by simp
  from xdog_binarize_overflow[OF le] le show ?thesis
    by (simp add: xdog_binarize_def)
qed

lemma scribble_xdog_size:
  assumes "scribble_xdog K a res thr = Inr (p, b)"
    and "resize_image_with_pad K a res = Inr (padded, (H, W))"
  shows "width p = min W (nd_W padded) \<and> height p = min H (nd_H padded)"
  using assms unfolding scribble_xdog_def
  by (auto simp: Let_def Image_fromarray_def remove_pad_def)

lemma convert_pil_to_sketch_D:
  assumes "convert_pil_to_sketch K img = Inr out"
  shows "\<exists>p b r. scribble_xdog K (np_array img) 2048 16 = Inr (p, b) \<and>
           Image_resize K p (int (width img), int (height img)) = Inr r \<and>
           width out = width r \<and> height out = height r \<and>
           (\<forall>x y. 0 \<le> x \<and> 0 \<le> y \<longrightarrow>
              getpixel out x y =
                (255 - snd (snd (getpixel r x y)), 255 - fst (snd (getpixel r x y)),
                 255 - fst (getpixel r x y)))"
proof -
  from assms obtain p b r where
    s: "scribble_xdog K (np_array img) 2048 16 = Inr (p, b)" and
    r: "Image_resize K p (int (width img), int (height img)) = Inr r" and
    out: "out = Image_fromarray ((cvtColor_RGB2BGR (np_array r))
            \<lparr>nd_at := \<lambda>i j c. 255 - nd_at (cvtColor_RGB2BGR (np_array r)) i j c\<rparr>)"
    unfolding convert_pil_to_sketch_def Let_def
    by (auto simp: and_then_Inr_iff)
  have "width out = width r" "height out = height r"
    by (simp_all add: out Image_fromarray_def cvtColor_RGB2BGR_def np_array_def)
  moreover have "getpixel out x y =
      (255 - snd (snd (getpixel r x y)), 255 - fst (snd (getpixel r x y)), 255 - fst (getpixel r x y))"
    if "0 \<le> x \<and> 0 \<le> y" for x y
    using that by (simp add: out Image_fromarray_def cvtColor_RGB2BGR_def np_array_def channel_def)
  ultimately show ?thesis using s r by blast
qed

lemma scribble_xdog_pixels:
  assumes "scribble_xdog K a res thr = Inr (p, b)"
  shows "\<exists>padded target. resize_image_with_pad K a res = Inr (padded, target) \<and> b \<and>
           (\<forall>x y. getpixel p x y =
              (xdog_binarize (dog_of K padded (nat y) (nat x)) thr,
               xdog_binarize (dog_of K padded (nat y) (nat x)) thr,
               xdog_binarize (dog_of K padded (nat y) (nat x)) thr))"
  using assms unfolding scribble_xdog_def
  by (auto simp: and_then_Inr_iff Let_def Image_fromarray_def remove_pad_def)

lemma upt_1_3: "[1..<3] = [1, 2]"
  by code_simp

lemma grey_bands_padded_run:
  "resize_image_with_pad example_library (np_array grey_bands_image) 2048 = Inr (grey_bands_padded, (2048, 2048))"
  unfolding grey_bands_padded_def
  by (simp add: resize_image_with_pad_def HWC3_def
      np_array_def grey_bands_image_def np_round_def cv2_resize_def np_pad_edge_def pad64_def py_int_def
      Let_def)

lemma grey_bands_padded_rows:
  "nd_at grey_bands_padded 998 0 c = 0" "nd_at grey_bands_padded 999 0 c = 0"
  "nd_at grey_bands_padded 1000 0 c = 40"
  "nd_at grey_bands_padded 1499 0 c = 255" "nd_at grey_bands_padded 1500 0 c = 0"
  "nd_at grey_bands_padded 1501 0 c = 255"
  by (simp_all add: grey_bands_padded_def example_library_def np_array_def grey_bands_image_def channel_def)

lemma grey_bands_padded_shape: "nd_H grey_bands_padded = 2048" "nd_W grey_bands_padded = 2048" "nd_C grey_bands_padded = 3"
  by (simp_all add: grey_bands_padded_def)

lemma grey_bands_narrow_blur: "sigma < 1 \<Longrightarrow>
    nd_at (cv2_GaussianBlur example_library (astype_float32 grey_bands_padded) sigma) 999 0 c = 0"
  "sigma < 1 \<Longrightarrow>
    nd_at (cv2_GaussianBlur example_library (astype_float32 grey_bands_padded) sigma) 1500 0 c = 0"
  by (simp_all add: cv2_GaussianBlur_def astype_float32_def example_library_def grey_bands_padded_rows)

lemma grey_bands_wide_blur: "\<not> sigma < 1 \<Longrightarrow>
    nd_at (cv2_GaussianBlur example_library (astype_float32 grey_bands_padded) sigma) 999 0 c = 10"
  "\<not> sigma < 1 \<Longrightarrow>
    nd_at (cv2_GaussianBlur example_library (astype_float32 grey_bands_padded) sigma) 1500 0 c = 255 / 2"
  by (simp_all add: cv2_GaussianBlur_def astype_float32_def example_library_def grey_bands_padded_rows grey_bands_padded_shape)

lemma grey_bands_blur_channels: "nd_C (cv2_GaussianBlur example_library (astype_float32 grey_bands_padded) sigma) = 3"
  by (simp add: cv2_GaussianBlur_def astype_float32_def grey_bands_padded_shape)

lemma grey_bands_dog:
  "dog_of example_library grey_bands_padded 999 0 = 245"
  "dog_of example_library grey_bands_padded 1500 0 = 127"
  by (simp_all add: dog_of_def xdog_dog_def np_min_axis2_def grey_bands_narrow_blur grey_bands_wide_blur grey_bands_blur_channels upt_1_3 np_clip_def
      astype_uint8_def py_int_def del: One_nat_def)

lemma grey_bands_run: "\<exists>out. convert_pil_to_sketch example_library grey_bands_image = Inr out"
  apply (simp add: convert_pil_to_sketch_def scribble_xdog_def grey_bands_padded_run Let_def del: One_nat_def)
  apply (simp add: Image_resize_def Image_fromarray_def remove_pad_def grey_bands_padded_def grey_bands_image_def)
  done

lemma grey_bands_resize:
  assumes "scribble_xdog example_library (np_array grey_bands_image) 2048 16 = Inr (p, b)"
    and "Image_resize example_library p (int (width grey_bands_image), int (height grey_bands_image)) = Inr r"
  shows "r = p"
proof -
  from scribble_xdog_size[OF assms(1) grey_bands_padded_run]
  have "width p = 2048 \<and> height p = 2048" by (simp add: grey_bands_padded_shape)
  with assms(2) show ?thesis
    by (simp add: Image_resize_def grey_bands_image_def)
qed

lemma np_round_ge:
  assumes "of_int n \<le> x"
  shows "n \<le> np_round x"
proof -
  have "n \<le> \<lfloor>x\<rfloor>" using assms by (simp add: le_floor_iff)
  then show ?thesis by (auto simp: np_round_def Let_def)
qed

lemma pad64_nonneg: "0 \<le> pad64 x"
proof -
  have "(of_int x :: real) = of_int x / 64 * 64" by simp
  also have "\<dots> \<le> of_int \<lceil>of_int x / (64::real)\<rceil> * 64"
    by (intro mult_right_mono le_of_int_ceiling) simp
  finally have "0 \<le> of_int \<lceil>of_int x / (64::real)\<rceil> * 64 - (of_int x :: real)" by simp
  then show ?thesis unfolding pad64_def by (rule py_int_nonneg)
qed

lemma fold_min_bounds:
  assumes "\<And>c. c \<in> set cs \<Longrightarrow> lo \<le> f c \<and> f c \<le> (hi::real)" "lo \<le> m" "m \<le> hi"
  shows "lo \<le> fold (\<lambda>c m. min m (f c)) cs m \<and> fold (\<lambda>c m. min m (f c)) cs m \<le> hi"
  using assms
proof (induction cs arbitrary: m)
  case Nil
  then show ?case by simp
next
  case (Cons c cs)
  have c: "lo \<le> f c \<and> f c \<le> hi" using Cons.prems(1) by simp
  have "lo \<le> min m (f c)" "min m (f c) \<le> hi"
    using c Cons.prems(2,3) by simp_all
  with Cons.IH[of "min m (f c)"] Cons.prems(1) show ?case by simp
qed

lemma np_min_axis2_bounds:
  assumes "0 < nd_C a" "\<And>c. c < nd_C a \<Longrightarrow> lo \<le> nd_at a i j c \<and> nd_at a i j c \<le> hi"
  shows "lo \<le> np_min_axis2 a i j \<and> np_min_axis2 a i j \<le> hi"
  unfolding np_min_axis2_def
proof (rule fold_min_bounds)
  show "lo \<le> nd_at a i j 0" "nd_at a i j 0 \<le> hi" using assms by simp_all
  show "lo \<le> nd_at a i j c \<and> nd_at a i j c \<le> hi" if "c \<in> set [1..<nd_C a]" for c
    using that assms(2) by simp
qed

text \<open>The padded array of a solid image is solid.\<close>

lemma resize_image_with_pad_solid:
  assumes K: "normalised_kernels K" and s: "solid_array a v"
    and sz: "0 < nd_H a" "0 < nd_W a" "nd_C a = 3" and res: "0 < res"
  shows "\<exists>padded th tw. resize_image_with_pad K a res = Inr (padded, (th, tw)) \<and>
           0 < th \<and> 0 < tw \<and> th \<le> nd_H padded \<and> tw \<le> nd_W padded \<and> nd_C padded = 3 \<and>
           solid_array padded v"
proof -
  let ?m = "min (nd_H a) (nd_W a)"
  let ?k = "of_int res / real ?m"
  let ?Ht = "np_round (real (nd_H a) * ?k)" and ?Wt = "np_round (real (nd_W a) * ?k)"
  let ?interp = "if ?k > 1 then INTER_CUBIC else INTER_AREA"
  have m: "0 < ?m" using sz by simp
  have k1: "(1::real) \<le> real (nd_H a) * ?k"
  proof -
    have "real ?m \<le> real (nd_H a)" by simp
    moreover have "(1::real) \<le> of_int res" using res by simp
    ultimately have "real ?m * 1 \<le> real (nd_H a) * of_int res"
      by (intro mult_mono) simp_all
    then show ?thesis using m by (simp add: field_simps)
  qed
  have k2: "(1::real) \<le> real (nd_W a) * ?k"
  proof -
    have "real ?m \<le> real (nd_W a)" by simp
    moreover have "(1::real) \<le> of_int res" using res by simp
    ultimately have "real ?m * 1 \<le> real (nd_W a) * of_int res"
      by (intro mult_mono) simp_all
    then show ?thesis using m by (simp add: field_simps)
  qed
  have Ht: "1 \<le> ?Ht" using np_round_ge[of 1 "real (nd_H a) * ?k"] k1 by simp
  have Wt: "1 \<le> ?Wt" using np_round_ge[of 1 "real (nd_W a) * ?k"] k2 by simp
  define resized where "resized = \<lparr>nd_H = nat ?Ht, nd_W = nat ?Wt, nd_C = nd_C a,
      nd_at = cv2_resize_px K a (nat ?Ht) (nat ?Wt) ?interp\<rparr>"
  have r: "cv2_resize K a (?Wt, ?Ht) ?interp = Inr resized"
    using Ht Wt sz by (simp add: cv2_resize_def resized_def)
  have rs: "solid_array resized v"
    using K s sz unfolding normalised_kernels_def solid_array_def resized_def
    by simp
  define padded where "padded = \<lparr>nd_H = nd_H resized + nat (pad64 ?Ht), nd_W = nd_W resized + nat (pad64 ?Wt),
      nd_C = nd_C resized,
      nd_at = \<lambda>i j c. nd_at resized (min i (nd_H resized - 1)) (min j (nd_W resized - 1)) c\<rparr>"
  have p: "np_pad_edge resized (pad64 ?Ht) (pad64 ?Wt) = Inr padded"
    using pad64_nonneg[of ?Ht] pad64_nonneg[of ?Wt] by (simp add: np_pad_edge_def padded_def)
  have rH: "0 < nd_H resized" "0 < nd_W resized" using Ht Wt by (simp_all add: resized_def)
  have ps: "solid_array padded v"
    unfolding solid_array_def
  proof (intro allI impI)
    fix i j c assume "i < nd_H padded \<and> j < nd_W padded \<and> c < nd_C padded"
    then have c: "c < nd_C resized" by (simp add: padded_def)
    have "min i (nd_H resized - 1) < nd_H resized" "min j (nd_W resized - 1) < nd_W resized"
      using rH by simp_all
    with rs c show "nd_at padded i j c = v c"
      unfolding solid_array_def by (simp add: padded_def)
  qed
  have h: "HWC3 a = Inr a" using sz by (simp add: HWC3_def)
  have m0: "(?m = 0) = False" using m by simp
  have run: "resize_image_with_pad K a res = Inr (padded, (nat ?Ht, nat ?Wt))"
    by (simp only: resize_image_with_pad_def h and_then_Inr Let_def m0 if_False r p)
  have "0 < nat ?Ht" "0 < nat ?Wt" "nat ?Ht \<le> nd_H padded" "nat ?Wt \<le> nd_W padded" "nd_C padded = 3"
    using Ht Wt sz by (simp_all add: padded_def resized_def)
  with run ps show ?thesis by blast
qed

lemma normalised_blur:
  assumes "normalised_kernels K" "0 < nd_H a" "0 < nd_W a" "solid_array a v"
    and "i < nd_H a" "j < nd_W a" "c < nd_C a"
  shows "\<bar>cv2_GaussianBlur_px K a sigma i j c - v c\<bar> \<le> 1"
  using assms unfolding normalised_kernels_def by blast

lemma astype_uint8_value:
  assumes "of_int lo \<le> t" "t \<le> 255" "0 \<le> lo"
  shows "lo \<le> uint (astype_uint8 t) \<and> uint (astype_uint8 t) \<le> 255"
proof -
  have t0: "0 \<le> t" using assms(1,3) by (meson of_int_0_le_iff order_trans)
  have f: "lo \<le> \<lfloor>t\<rfloor>" "\<lfloor>t\<rfloor> \<le> 255"
    using assms(1,2) by (simp_all add: le_floor_iff floor_le_iff)
  then have "0 \<le> \<lfloor>t\<rfloor>" "\<lfloor>t\<rfloor> < 256" using assms(3) by linarith+
  then have "\<lfloor>t\<rfloor> mod 256 = \<lfloor>t\<rfloor>" by (rule mod_pos_pos_trivial)
  then have "uint (astype_uint8 t) = \<lfloor>t\<rfloor>"
    using t0 by (simp add: astype_uint8_def py_int_def uint_word_of_int)
  with f show ?thesis by simp
qed

lemma dog_of_solid:
  assumes K: "normalised_kernels K" and s: "solid_array padded v"
    and sz: "0 < nd_H padded" "0 < nd_W padded" "nd_C padded = 3"
    and ij: "i < nd_H padded" "j < nd_W padded"
  shows "253 \<le> uint (dog_of K padded i j)"
proof -
  let ?f = "astype_float32 padded"
  have fs: "solid_array ?f (\<lambda>c. real (unat (v c)))"
    using s by (simp add: solid_array_def astype_float32_def)
  have shape: "nd_H ?f = nd_H padded" "nd_W ?f = nd_W padded" "nd_C ?f = 3"
    using sz by (simp_all add: astype_float32_def)
  have blur: "\<bar>cv2_GaussianBlur_px K ?f sigma i j c - real (unat (v c))\<bar> \<le> 1" if "c < 3" for sigma c
  proof -
    have "0 < nd_H ?f" "0 < nd_W ?f" "i < nd_H ?f" "j < nd_W ?f" "c < nd_C ?f"
      using sz ij that shape by simp_all
    from normalised_blur[OF K this(1,2) fs this(3,4,5)] show ?thesis .
  qed
  let ?g1 = "cv2_GaussianBlur K ?f 0.5" and ?g2 = "cv2_GaussianBlur K ?f 5.0"
  let ?d = "?g2\<lparr>nd_at := \<lambda>i j c. nd_at ?g2 i j c - nd_at ?g1 i j c\<rparr>"
  have dC: "0 < nd_C ?d" using shape by (simp add: cv2_GaussianBlur_def)
  have "- 2 \<le> nd_at ?d i j c \<and> nd_at ?d i j c \<le> 2" if "c < nd_C ?d" for c
  proof -
    from that have "c < 3" using shape by (simp add: cv2_GaussianBlur_def)
    from blur[OF this, of "0.5"] blur[OF this, of "5.0"]
    have "- 2 \<le> cv2_GaussianBlur_px K ?f 5.0 i j c - cv2_GaussianBlur_px K ?f 0.5 i j c \<and>
          cv2_GaussianBlur_px K ?f 5.0 i j c - cv2_GaussianBlur_px K ?f 0.5 i j c \<le> 2"
      by linarith
    then show ?thesis by (simp add: cv2_GaussianBlur_def)
  qed
  with dC have m: "- 2 \<le> np_min_axis2 ?d i j \<and> np_min_axis2 ?d i j \<le> 2"
    by (rule np_min_axis2_bounds)
  let ?t = "np_clip (255 - np_min_axis2 ?d i j) 0 255"
  have "of_int 253 \<le> ?t" "?t \<le> 255" using m by (simp_all add: np_clip_def)
  from astype_uint8_value[OF this] have "253 \<le> uint (astype_uint8 ?t)" by simp
  then show ?thesis
    by (simp add: dog_of_def xdog_dog_def Let_def)
qed

lemma xdog_binarize_flat:
  assumes "253 \<le> uint d" "4 \<le> thr"
  shows "xdog_binarize d thr = 0"
proof -
  have "128 \<le> uint d" using assms(1) by simp
  from xdog_binarize_as_passed[OF this, of thr] assms show ?thesis by simp
qed

lemma scribble_xdog_solid:
  assumes K: "normalised_kernels K" and s: "solid_array a v"
    and sz: "0 < nd_H a" "0 < nd_W a" "nd_C a = 3" and res: "0 < res" and thr: "4 \<le> thr"
  shows "\<exists>p. scribble_xdog K a res thr = Inr (p, True) \<and> 0 < width p \<and> 0 < height p \<and>
           solid_image p (0, 0, 0)"
proof -
  from resize_image_with_pad_solid[OF K s sz res] obtain padded th tw where
    r: "resize_image_with_pad K a res = Inr (padded, (th, tw))" and
    t: "0 < th" "0 < tw" "th \<le> nd_H padded" "tw \<le> nd_W padded" and
    c: "nd_C padded = 3" and ps: "solid_array padded v"
    by blast
  have pos: "0 < nd_H padded" "0 < nd_W padded" using t by simp_all
  define result where "result = padded\<lparr>nd_at := \<lambda>i j c. xdog_binarize (dog_of K padded i j) thr\<rparr>"
  define p where "p = Image_fromarray (remove_pad (th, tw) result)"
  have run: "scribble_xdog K a res thr = Inr (p, True)"
    by (simp add: scribble_xdog_def r Let_def p_def result_def)
  have size: "width p = tw" "height p = th"
    using t by (simp_all add: p_def Image_fromarray_def remove_pad_def result_def)
  have "solid_image p (0, 0, 0)"
    unfolding solid_image_def
  proof (intro allI impI)
    fix x y assume b: "0 \<le> x \<and> x < int (width p) \<and> 0 \<le> y \<and> y < int (height p)"
    then have "nat y < th" "nat x < tw"
      using size by (simp_all add: nat_less_iff)
    then have "nat y < nd_H padded" "nat x < nd_W padded"
      using t(3,4) by simp_all
    from xdog_binarize_flat[OF dog_of_solid[OF K ps pos c this] thr]
    show "getpixel p x y = (0, 0, 0)"
      by (simp add: p_def Image_fromarray_def remove_pad_def result_def)
  qed
  with run size t show ?thesis by simp
qed

lemma normalised_resample:
  assumes "normalised_kernels K" "0 < width img" "0 < height img" "solid_image img p"
    and "0 \<le> x" "x < int w" "0 \<le> y" "y < int h"
  shows "Image_resize_px K img w h x y = p"
  using assms unfolding normalised_kernels_def by blast

lemma Image_resize_solid:
  assumes K: "normalised_kernels K" and s: "solid_image p c"
    and sz: "0 < width p" "0 < height p" and wh: "1 \<le> w" "1 \<le> h"
  shows "\<exists>r. Image_resize K p (w, h) = Inr r \<and> int (width r) = w \<and> int (height r) = h \<and>
           solid_image r c"
proof (cases "(int (width p), int (height p)) = (w, h)")
  case True
  then show ?thesis using s by (auto simp: Image_resize_def)
next
  case False
  define r where "r = \<lparr>width = nat w, height = nat h, getpixel = Image_resize_px K p (nat w) (nat h)\<rparr>"
  from False have nf: "((int (width p), int (height p)) = (w, h)) = False" by simp
  have nl: "(w < 1 \<or> h < 1) = False" using wh by simp
  have run: "Image_resize K p (w, h) = Inr r"
    by (simp only: Image_resize_def prod.case nf nl if_False r_def)
  have "solid_image r c"
    unfolding solid_image_def
  proof (intro allI impI)
    fix x y assume "0 \<le> x \<and> x < int (width r) \<and> 0 \<le> y \<and> y < int (height r)"
    then have "0 \<le> x" "x < int (nat w)" "0 \<le> y" "y < int (nat h)"
      by (simp_all add: r_def)
    from normalised_resample[OF K sz s this]
    show "getpixel r x y = c" by (simp add: r_def)
  qed
  with run wh show ?thesis by (simp add: r_def)
qed

lemma nearest_index_nat:
  assumes "i < h" "0 < (n::nat)"
  shows "i * n div h < n"
proof -
  have "i * n < n * h" using assms by simp
  then show ?thesis by (rule less_mult_imp_div_less)
qed

lemma nearest_index_int:
  assumes "0 \<le> x" "x < int w" "0 < (n::nat)"
  shows "0 \<le> x * int n div int w \<and> x * int n div int w < int n"
proof -
  have "nat x < w" using assms by simp
  from nearest_index_nat[OF this assms(3)] have "nat x * n div w < n" .
  moreover have "x * int n div int w = int (nat x * n div w)"
    using assms(1) by (simp add: zdiv_int)
  ultimately show ?thesis by simp
qed

lemma example_library_normalised: "normalised_kernels example_library"
  unfolding normalised_kernels_def
proof (intro conjI allI impI)
  fix a :: "u8 ndarray" and h w :: nat and m v i j c
  assume A: "0 < nd_H a \<and> 0 < nd_W a \<and> solid_array a v \<and> i < h \<and> j < w \<and> c < nd_C a"
  then have "i * nd_H a div h < nd_H a" "j * nd_W a div w < nd_W a"
    by (simp_all add: nearest_index_nat)
  with A show "cv2_resize_px example_library a h w m i j c = v c"
    by (simp add: example_library_def solid_array_def)
next
  fix a :: "real ndarray" and sigma v i j c
  assume A: "0 < nd_H a \<and> 0 < nd_W a \<and> solid_array a v \<and> i < nd_H a \<and> j < nd_W a \<and> c < nd_C a"
  then have "i - 1 < nd_H a" "min (i + 1) (nd_H a - 1) < nd_H a" by linarith+
  with A have "nd_at a (i - 1) j c = v c" "nd_at a i j c = v c"
    "nd_at a (min (i + 1) (nd_H a - 1)) j c = v c"
    unfolding solid_array_def by blast+
  then show "\<bar>cv2_GaussianBlur_px example_library a sigma i j c - v c\<bar> \<le> 1"
    by (simp add: example_library_def)
next
  fix img :: image and w h :: nat and p x y
  assume A: "0 < width img \<and> 0 < height img \<and> solid_image img p \<and>
          0 \<le> x \<and> x < int w \<and> 0 \<le> y \<and> y < int h"
  then have "0 \<le> x * int (width img) div int w \<and> x * int (width img) div int w < int (width img)"
    "0 \<le> y * int (height img) div int h \<and> y * int (height img) div int h < int (height img)"
    by (simp_all add: nearest_index_int)
  with A show "Image_resize_px example_library img w h x y = p"
    unfolding solid_image_def by (simp add: example_library_def)
qed

section \<open>Properties of the paired augmentation\<close>

text \<open>
  C1. In every draw the angle is sampled once (when the rotation range is positive) and
  the flip decision once (when flips are enabled); the source and the target base images
  are obtained by rotating with that one angle and flipping with that one decision.
\<close>

theorem shared_angle_and_flip:
  assumes "process_image_pair_locals K s t cfg g = Inr v"
  shows "\<exists>b1. expand_stage (expand_to_long_side cfg) s t
                (source_fill_color v) (target_fill_color v) = Inr b1 \<and>
     (0 < rotation_range cfg \<longrightarrow>
        angle v = Some (fst (uniform (- rotation_range cfg) (rotation_range cfg) g))) \<and>
     (\<not> 0 < rotation_range cfg \<longrightarrow> angle v = None) \<and>
     (is_flip cfg \<longrightarrow> is_horizontal v \<noteq> None) \<and>
     (\<not> is_flip cfg \<longrightarrow> is_horizontal v = None) \<and>
     base_source v =
       (case is_horizontal v of None \<Rightarrow> (\<lambda>img. img) | Some h \<Rightarrow> (\<lambda>img. apply_random_flip img h))
         (case angle v of None \<Rightarrow> fst b1
          | Some a \<Rightarrow> rotate_image K s a (source_fill_color v)) \<and>
     base_target v =
       (case is_horizontal v of None \<Rightarrow> (\<lambda>img. img) | Some h \<Rightarrow> (\<lambda>img. apply_random_flip img h))
         (case angle v of None \<Rightarrow> snd b1
          | Some a \<Rightarrow> rotate_image K t a (target_fill_color v))"
proof -
  from locals_Inr_D[OF assms] obtain sf tf b1 a b2 g1 h b3 g2 cs sc g3 so to g4 where
    b1: "expand_stage (expand_to_long_side cfg) s t sf tf = Inr b1" and
    r: "rotate_stage K (rotation_range cfg) s t sf tf b1 g = (a, b2, g1)" and
    f: "flip_stage (is_flip cfg) b2 g1 = Inr (h, b3, g2)" and
    v: "v = \<lparr>source_fill_color = sf, target_fill_color = tf,
            angle = a, is_horizontal = h,
            base_source = fst b3, base_target = snd b3,
            canvas_scale = cs,
            scaled_source = fst sc, scaled_target = snd sc,
            crop_source_size = crop_size_of (fst b3) cs,
            crop_target_size = crop_size_of (snd b3) cs,
            left_source = fst so, top_source = snd so,
            left_target = fst to, top_target = snd to,
            rng_after = g4\<rparr>"
    by blast
  from rotate_stage_D[OF r] flip_stage_D[OF f] b1 show ?thesis
    by (auto simp: v split: option.splits)
qed

text \<open>
  A draw with rotation range 180 and flips enabled: the angle is \<open>-180\<close>, the decision is
  to flip, and both are applied to the source and to the target.
\<close>

theorem shared_angle_and_flip_witness:
  "\<exists>v. process_image_pair_locals example_library (coordinate_image 4 2) (coordinate_image 8 4)
      ((plain_config 2)\<lparr>rotation_range := 180, is_flip := True\<rparr>) (rng_of [0, 0, 0, 1, 0]) = Inr v \<and>
     angle v = Some (- 180) \<and> is_horizontal v = Some True \<and>
     base_source v = apply_random_flip
        (rotate_image example_library (coordinate_image 4 2) (- 180) (255, 255, 255)) True \<and>
     base_target v = apply_random_flip
        (rotate_image example_library (coordinate_image 8 4) (- 180) (255, 255, 255)) True \<and>
     getpixel (base_source v) 0 0 = (0, 1, 0) \<and> getpixel (base_target v) 0 0 = (0, 3, 0)"
proof -
  let ?cfg = "(plain_config 2)\<lparr>rotation_range := 180, is_flip := True\<rparr>"
  let ?g = "rng_of [0, 0, 0, 1, 0]"
  have "\<exists>v. process_image_pair_locals example_library (coordinate_image 4 2) (coordinate_image 8 4)
      ?cfg ?g = Inr v \<and> is_horizontal v = Some True \<and>
      source_fill_color v = (255, 255, 255) \<and> target_fill_color v = (255, 255, 255)"
    by (simp add: run_defs)
  then obtain v where v: "process_image_pair_locals example_library (coordinate_image 4 2)
      (coordinate_image 8 4) ?cfg ?g = Inr v" and h: "is_horizontal v = Some True"
      and fills: "source_fill_color v = (255, 255, 255)" "target_fill_color v = (255, 255, 255)"
    by blast
  have u: "fst (uniform (- rotation_range ?cfg) (rotation_range ?cfg) ?g) = - 180"
    by (simp add: run_defs)
  have rr: "0 < rotation_range ?cfg"
    by (simp add: plain_config_def)
  from shared_angle_and_flip[OF v] rr u h fills
  have a: "angle v = Some (- 180)"
    and bs: "base_source v = apply_random_flip
        (rotate_image example_library (coordinate_image 4 2) (- 180) (255, 255, 255)) True"
    and bt: "base_target v = apply_random_flip
        (rotate_image example_library (coordinate_image 8 4) (- 180) (255, 255, 255)) True"
    by auto
  have "getpixel (base_source v) 0 0 = (0, 1, 0)" "getpixel (base_target v) 0 0 = (0, 3, 0)"
    unfolding bs bt by (simp_all add: run_defs example_library_def)
  with v a h bs bt show ?thesis by blast
qed

text \<open>
  C2. In every draw that returns, the target offset is the source offset rescaled by the
  ratio of the original dimensions with floor division, and the target image returned
  is the crop at the offset re-derived in this way from the recorded source offset.
\<close>

theorem target_offset_rescales_source_offset:
  assumes "process_image_pair K s t cfg g = Inr ((fs, ft), g')"
  shows "\<exists>v c. process_image_pair_locals K s t cfg g = Inr v \<and>
      left_target v = left_source v * int (width t) div int (width s) \<and>
      top_target v = top_source v * int (height t) div int (height s) \<and>
      crop_square (scaled_target v)
        (left_source v * int (width t) div int (width s))
        (top_source v * int (height t) div int (height s)) (crop_target_size v) = Inr c \<and>
      Image_resize K c (output_size cfg) = Inr ft"
proof -
  from process_image_pair_Inr_D[OF assms] obtain v ct where
    v: "process_image_pair_locals K s t cfg g = Inr v" and
    ct: "crop_square (scaled_target v) (left_target v) (top_target v) (crop_target_size v) = Inr ct" and
    ft: "Image_resize K ct (output_size cfg) = Inr ft"
    by blast
  from locals_offsets[OF v] ct ft v show ?thesis by auto
qed

text \<open>
  A draw on a \<open>4 \<times> 4\<close> source and an \<open>8 \<times> 8\<close> target with scale 2: the source offset
  \<open>(1, 2)\<close> becomes the target offset \<open>(2, 4)\<close>.
\<close>

theorem target_offset_rescales_source_offset_witness:
  "\<exists>v c fs ft g'.
     process_image_pair example_library (coordinate_image 4 4) (coordinate_image 8 8)
       ((plain_config 2)\<lparr>min_scale := 2, max_scale := 2\<rparr>) (rng_of [0, 1, 2]) = Inr ((fs, ft), g') \<and>
     process_image_pair_locals example_library (coordinate_image 4 4) (coordinate_image 8 8)
       ((plain_config 2)\<lparr>min_scale := 2, max_scale := 2\<rparr>) (rng_of [0, 1, 2]) = Inr v \<and>
     left_source v = 1 \<and> top_source v = 2 \<and>
     left_target v = 1 * 8 div 4 \<and> top_target v = 2 * 8 div 4 \<and>
     crop_square (scaled_target v) (1 * 8 div 4) (2 * 8 div 4) (crop_target_size v) = Inr c \<and>
     Image_resize example_library c (2, 2) = Inr ft"
proof -
  let ?cfg = "(plain_config 2)\<lparr>min_scale := 2, max_scale := 2\<rparr>"
  have "\<exists>fs ft g'. process_image_pair example_library (coordinate_image 4 4) (coordinate_image 8 8)
       ?cfg (rng_of [0, 1, 2]) = Inr ((fs, ft), g')"
    by (simp add: run_defs)
  then obtain fs ft g' where run: "process_image_pair example_library (coordinate_image 4 4)
       (coordinate_image 8 8) ?cfg (rng_of [0, 1, 2]) = Inr ((fs, ft), g')"
    by blast
  from target_offset_rescales_source_offset[OF run] obtain v c where
    v: "process_image_pair_locals example_library (coordinate_image 4 4) (coordinate_image 8 8)
       ?cfg (rng_of [0, 1, 2]) = Inr v" and
    rest: "left_target v = left_source v * int (width (coordinate_image 8 8)) div int (width (coordinate_image 4 4))"
      "top_target v = top_source v * int (height (coordinate_image 8 8)) div int (height (coordinate_image 4 4))"
      "crop_square (scaled_target v)
        (left_source v * int (width (coordinate_image 8 8)) div int (width (coordinate_image 4 4)))
        (top_source v * int (height (coordinate_image 8 8)) div int (height (coordinate_image 4 4)))
        (crop_target_size v) = Inr c"
      "Image_resize example_library c (output_size ?cfg) = Inr ft"
    by blast
  have src: "left_source v = 1 \<and> top_source v = 2"
    using v by (auto simp: run_defs)
  have out: "output_size ?cfg = (2, 2)"
    by (simp add: plain_config_def)
  show ?thesis
    using run v rest src out by (simp add: coordinate_image_def)
qed

text \<open>
  C3. When the configured output size is the square \<open>(n, n)\<close>, every pair returned by
  \<^verbatim>\<open>process_image_pair\<close> has width and height \<open>n\<close>, and \<^verbatim>\<open>process_images\<close> returns
  \<open>num_copies\<close> sources and as many targets, each of width and height \<open>n\<close>.
\<close>

theorem output_pair_has_configured_size:
  assumes "output_size cfg = (n, n)"
  shows "(process_image_pair K s t cfg g = Inr ((fs, ft), g') \<longrightarrow>
            int (width fs) = n \<and> int (height fs) = n \<and> int (width ft) = n \<and> int (height ft) = n) \<and>
         (process_images K s t k cfg g = Inr ((srcs, tgts), g'') \<longrightarrow>
            length srcs = nat k \<and> length tgts = nat k \<and>
            (\<forall>a \<in> set srcs. int (width a) = n \<and> int (height a) = n) \<and>
            (\<forall>b \<in> set tgts. int (width b) = n \<and> int (height b) = n))"
proof (intro conjI impI)
  assume p: "process_image_pair K s t cfg g = Inr ((fs, ft), g')"
  from process_image_pair_size[OF p assms]
  show "int (width fs) = n" "int (height fs) = n" "int (width ft) = n" "int (height ft) = n"
    by simp_all
next
  assume p: "process_images K s t k cfg g = Inr ((srcs, tgts), g'')"
  then have l: "process_images_loop K s t cfg (nat k) g [] [] = Inr ((srcs, tgts), g'')"
    by (simp add: process_images_def)
  from process_images_loop_sizes[OF l assms]
  show "length srcs = nat k" "length tgts = nat k"
    "\<forall>a \<in> set srcs. int (width a) = n \<and> int (height a) = n"
    "\<forall>b \<in> set tgts. int (width b) = n \<and> int (height b) = n"
    by simp_all
qed

text \<open>One draw and a batch of two copies with output size \<open>(2, 2)\<close>.\<close>

theorem output_pair_has_configured_size_witness:
  "\<exists>fs ft g' srcs tgts g''.
     process_image_pair example_library (coordinate_image 4 4) (coordinate_image 8 8)
       ((plain_config 2)\<lparr>min_scale := 2, max_scale := 2\<rparr>) (rng_of [0, 1, 2, 0, 2, 0]) = Inr ((fs, ft), g') \<and>
     int (width fs) = 2 \<and> int (height fs) = 2 \<and> int (width ft) = 2 \<and> int (height ft) = 2 \<and>
     process_images example_library (coordinate_image 4 4) (coordinate_image 8 8) 2
       ((plain_config 2)\<lparr>min_scale := 2, max_scale := 2\<rparr>) (rng_of [0, 1, 2, 0, 2, 0]) = Inr ((srcs, tgts), g'') \<and>
     length srcs = 2 \<and> length tgts = 2 \<and>
     list_all (\<lambda>a. int (width a) = 2 \<and> int (height a) = 2) srcs \<and>
     list_all (\<lambda>b. int (width b) = 2 \<and> int (height b) = 2) tgts"
proof -
  let ?cfg = "(plain_config 2)\<lparr>min_scale := 2, max_scale := 2\<rparr>"
  have out: "output_size ?cfg = (2, 2)"
    by (simp add: plain_config_def)
  have "\<exists>fs ft g'. process_image_pair example_library (coordinate_image 4 4) (coordinate_image 8 8)
       ?cfg (rng_of [0, 1, 2, 0, 2, 0]) = Inr ((fs, ft), g')"
    by (simp add: run_defs)
  then obtain fs ft g' where run: "process_image_pair example_library (coordinate_image 4 4)
       (coordinate_image 8 8) ?cfg (rng_of [0, 1, 2, 0, 2, 0]) = Inr ((fs, ft), g')"
    by blast
  have "\<exists>srcs tgts g''. process_images example_library (coordinate_image 4 4) (coordinate_image 8 8) 2
       ?cfg (rng_of [0, 1, 2, 0, 2, 0]) = Inr ((srcs, tgts), g'')"
    by (simp add: process_images_def numeral_2_eq_2 run_defs)
  then obtain srcs tgts g'' where runs: "process_images example_library (coordinate_image 4 4)
       (coordinate_image 8 8) 2 ?cfg (rng_of [0, 1, 2, 0, 2, 0]) = Inr ((srcs, tgts), g'')"
    by blast
  from output_pair_has_configured_size[OF out, where K = example_library
      and s = "coordinate_image 4 4" and t = "coordinate_image 8 8" and g = "rng_of [0, 1, 2, 0, 2, 0]"
      and fs = fs and ft = ft and g' = g' and k = 2 and srcs = srcs and tgts = tgts and g'' = g'']
    run runs
  show ?thesis
    by (auto simp: list_all_iff)
qed

text \<open>
  C4 does not hold of the code. With \<^verbatim>\<open>expand_to_long_side\<close> and a positive rotation range,
  lines 112 and 113 rotate \<^verbatim>\<open>source_image\<close> and \<^verbatim>\<open>target_image\<close>, not the square
  canvases of lines 92 to 108. For a \<open>4 \<times> 2\<close> image and the sampled angle 0 the square
  canvas is \<open>4 \<times> 4\<close>, and its rotation would be, but the base image after the rotation
  step is the rotated input, of size \<open>4 \<times> 2\<close>.
\<close>

theorem rotation_ignores_long_side_canvas:
  "\<exists>v c. process_image_pair_locals example_library (coordinate_image 4 2) (coordinate_image 4 2)
       ((plain_config 2)\<lparr>rotation_range := 10, expand_to_long_side := True\<rparr>)
       (rng_of [2 ^ 52, 0, 0, 0]) = Inr v \<and>
     long_side_canvas (coordinate_image 4 2) (255, 255, 255) = Inr c \<and>
     (width c, height c) = (4, 4) \<and>
     angle v = Some 0 \<and>
     base_source v = rotate_image example_library (coordinate_image 4 2) 0 (255, 255, 255) \<and>
     (width (base_source v), height (base_source v)) = (4, 2) \<and>
     (width (rotate_image example_library c 0 (255, 255, 255)),
      height (rotate_image example_library c 0 (255, 255, 255))) = (4, 4)"
  by (simp add: run_defs)







text \<open>
  C9, as stated, fails: a target image of size \<open>0 \<times> 4\<close> with a \<open>4 \<times> 4\<close> source is not
  rejected; the call returns a pair.
\<close>

theorem zero_area_target_is_accepted:
  "width (coordinate_image 0 4) = 0 \<and>
   \<not> isl (process_image_pair example_library (coordinate_image 4 4) (coordinate_image 0 4)
            (plain_config 2) (rng_of []))"
  by (simp add: run_defs)

text \<open>
  C9, as amended. \<^verbatim>\<open>process_image_pair\<close> has no check of the image sizes. A source image
  of width or height 0 always ends in an error: at the latest the division by the
  original source dimension in lines 150 and 151 raises ZeroDivisionError.
\<close>

theorem zero_area_source_is_rejected:
  assumes "width s = 0 \<or> height s = 0"
  shows "isl (process_image_pair K s t cfg g)"
proof (rule ccontr)
  assume "\<not> isl (process_image_pair K s t cfg g)"
  then obtain fs ft g' where "process_image_pair K s t cfg g = Inr ((fs, ft), g')"
    by (cases "process_image_pair K s t cfg g") auto
  from process_image_pair_Inr_D[OF this] obtain v where
    "process_image_pair_locals K s t cfg g = Inr v" by blast
  from locals_offsets[OF this] assms show False by simp
qed

text \<open>A source image of size \<open>0 \<times> 3\<close>.\<close>

theorem zero_area_source_is_rejected_witness:
  "width (coordinate_image 0 3) = 0 \<and>
   isl (process_image_pair example_library (coordinate_image 0 3) (coordinate_image 4 4)
          (plain_config 2) (rng_of []))"
  using zero_area_source_is_rejected[of "coordinate_image 0 3" example_library
      "coordinate_image 4 4" "plain_config 2" "rng_of []"]
  by (simp add: coordinate_image_def)

text \<open>
  C10. For source and target images of positive width and height and a scale range with
  \<open>0 < min_scale \<le> max_scale\<close>, lines 69 to 151 run without an error: the square crop is
  never larger than the scaled source canvas, in the branch that grows the canvas and in
  the branch that does not, so both offset ranges are non-empty, and the sampled window
  lies inside the scaled source canvas.
\<close>

theorem source_crop_window_fits:
  assumes "0 < width s" "0 < height s" "0 < width t" "0 < height t"
    and "0 < min_scale cfg" "min_scale cfg \<le> max_scale cfg"
  shows "\<exists>v. process_image_pair_locals K s t cfg g = Inr v \<and>
           0 \<le> crop_source_size v \<and>
           crop_source_size v \<le> int (width (scaled_source v)) \<and>
           crop_source_size v \<le> int (height (scaled_source v)) \<and>
           0 \<le> left_source v \<and>
           left_source v + crop_source_size v \<le> int (width (scaled_source v)) \<and>
           0 \<le> top_source v \<and>
           top_source v + crop_source_size v \<le> int (height (scaled_source v))"
proof -
  obtain sf where sf: "choose_fill_color s (source_is_edge_mode_fill cfg) (source_is_avg_color_fill cfg) = Inr sf"
    using choose_fill_color_ok[OF assms(1,2)] by blast
  obtain tf where tf: "choose_fill_color t (target_is_edge_mode_fill cfg) (target_is_avg_color_fill cfg) = Inr tf"
    using choose_fill_color_ok[OF assms(3,4)] by blast
  obtain b1 where b1: "expand_stage (expand_to_long_side cfg) s t sf tf = Inr b1"
    using expand_stage_ok by blast
  obtain a b2 g1 where r: "rotate_stage K (rotation_range cfg) s t sf tf b1 g = (a, b2, g1)"
    by (cases "rotate_stage K (rotation_range cfg) s t sf tf b1 g") auto
  obtain h b3 g2 where f: "flip_stage (is_flip cfg) b2 g1 = Inr (h, b3, g2)"
    using flip_stage_ok by blast
  obtain cs sc g3 where sc: "scale_stage (min_scale cfg) (max_scale cfg) b3 sf tf g2 = Inr (cs, sc, g3)"
    and cs: "0 < cs"
    and fit: "crop_size_of (fst b3) cs \<le> int (width (fst sc))"
             "crop_size_of (fst b3) cs \<le> int (height (fst sc))"
    using scale_stage_ok[OF assms(5,6), of b3 sf tf g2] by blast
  obtain l u lt ut g4 where
    off: "offset_stage s t (fst sc) (crop_size_of (fst b3) cs) g3 = Inr ((l, u), (lt, ut), g4)"
    and bounds: "0 \<le> l" "l + crop_size_of (fst b3) cs \<le> int (width (fst sc))"
                "0 \<le> u" "u + crop_size_of (fst b3) cs \<le> int (height (fst sc))"
    using offset_stage_ok[OF fit assms(1,2), of t g3] by blast
  have nonneg: "0 \<le> crop_size_of (fst b3) cs"
    using crop_size_of_bounds(1)[of cs "fst b3"] cs by simp
  show ?thesis
    unfolding process_image_pair_locals_def
    using fit bounds nonneg by (simp add: sf tf b1 r f sc off)
qed

text \<open>
  A draw with scale \<open>1/2\<close> on a \<open>4 \<times> 3\<close> source: the canvas grows to \<open>8 \<times> 6\<close> and the
  crop of side 6 is placed at offset \<open>(1, 0)\<close>.
\<close>

theorem source_crop_window_fits_witness:
  "\<exists>v. process_image_pair_locals example_library (coordinate_image 4 3) (coordinate_image 8 6)
          ((plain_config 2)\<lparr>min_scale := 1 / 2, max_scale := 1 / 2\<rparr>) (rng_of [0, 1, 2]) = Inr v \<and>
        crop_source_size v = 6 \<and> width (scaled_source v) = 8 \<and> height (scaled_source v) = 6 \<and>
        left_source v = 1 \<and> top_source v = 0 \<and>
        0 \<le> crop_source_size v \<and>
        crop_source_size v \<le> int (width (scaled_source v)) \<and>
        crop_source_size v \<le> int (height (scaled_source v)) \<and>
        0 \<le> left_source v \<and>
        left_source v + crop_source_size v \<le> int (width (scaled_source v)) \<and>
        0 \<le> top_source v \<and>
        top_source v + crop_source_size v \<le> int (height (scaled_source v))"
proof -
  let ?cfg = "(plain_config 2)\<lparr>min_scale := 1 / 2, max_scale := 1 / 2\<rparr>"
  have hyps: "0 < width (coordinate_image 4 3)" "0 < height (coordinate_image 4 3)"
    "0 < width (coordinate_image 8 6)" "0 < height (coordinate_image 8 6)"
    "0 < min_scale ?cfg" "min_scale ?cfg \<le> max_scale ?cfg"
    by (simp_all add: coordinate_image_def plain_config_def)
  from source_crop_window_fits[OF hyps, of example_library "rng_of [0, 1, 2]"]
  obtain v where v: "process_image_pair_locals example_library (coordinate_image 4 3)
      (coordinate_image 8 6) ?cfg (rng_of [0, 1, 2]) = Inr v"
    and fits: "0 \<le> crop_source_size v \<and>
        crop_source_size v \<le> int (width (scaled_source v)) \<and>
        crop_source_size v \<le> int (height (scaled_source v)) \<and>
        0 \<le> left_source v \<and>
        left_source v + crop_source_size v \<le> int (width (scaled_source v)) \<and>
        0 \<le> top_source v \<and>
        top_source v + crop_source_size v \<le> int (height (scaled_source v))"
    by blast
  have vals: "crop_source_size v = 6 \<and> width (scaled_source v) = 8 \<and> height (scaled_source v) = 6 \<and>
        left_source v = 1 \<and> top_source v = 0"
    using v by (auto simp: run_defs)
  from v fits vals show ?thesis by blast
qed

section \<open>Properties of the sketch conversion\<close>

text \<open>
  C6, as stated, fails: the threshold is not doubled. In the sketch of \<open>grey_bands_image\<close>
  the difference-of-Gaussians value of the pixel in column 0 of row 999 is 245. The
  product \<open>2 \<times> (255 - 245) = 20\<close> does not exceed the doubled threshold 32, so that by
  the claim the filter leaves the pixel black and the inverted sketch has it white; but
  the filter, called with \<open>thr_a = 16\<close>, sets the pixel to 255, and the sketch has it black.
\<close>

theorem threshold_is_not_doubled:
  "\<exists>out. convert_pil_to_sketch example_library grey_bands_image = Inr out \<and>
     resize_image_with_pad example_library (np_array grey_bands_image) 2048 =
       Inr (grey_bands_padded, (2048, 2048)) \<and>
     dog_of example_library grey_bands_padded 999 0 = 245 \<and>
     \<not> spec_white_at_doubled_threshold 245 \<and>
     xdog_binarize 245 16 = 255 \<and>
     getpixel out 0 999 = (0, 0, 0)"
proof -
  from grey_bands_run obtain out where
    run: "convert_pil_to_sketch example_library grey_bands_image = Inr out" by (elim exE)
  from convert_pil_to_sketch_D[OF run] obtain p b r where
    s: "scribble_xdog example_library (np_array grey_bands_image) 2048 16 = Inr (p, b)" and
    r: "Image_resize example_library p (int (width grey_bands_image), int (height grey_bands_image)) = Inr r" and
    px: "\<forall>x y. 0 \<le> x \<and> 0 \<le> y \<longrightarrow>
              getpixel out x y =
                (255 - snd (snd (getpixel r x y)), 255 - fst (snd (getpixel r x y)),
                 255 - fst (getpixel r x y))"
    by blast
  from scribble_xdog_pixels[OF s] obtain padded target where
    pad: "resize_image_with_pad example_library (np_array grey_bands_image) 2048 = Inr (padded, target)" and
    law: "\<forall>x y. getpixel p x y =
              (xdog_binarize (dog_of example_library padded (nat y) (nat x)) 16,
               xdog_binarize (dog_of example_library padded (nat y) (nat x)) 16,
               xdog_binarize (dog_of example_library padded (nat y) (nat x)) 16)"
    by blast
  from pad grey_bands_padded_run have pe: "padded = grey_bands_padded" by simp
  have b245: "xdog_binarize 245 16 = 255" by (simp add: xdog_binarize_def)
  from law[rule_format, of 0 999] have pp: "getpixel p 0 999 = (255, 255, 255)"
    by (simp add: pe grey_bands_dog b245)
  from grey_bands_resize[OF s r] have rp: "r = p" .
  from px[rule_format, of 0 999] have o: "getpixel out 0 999 = (0, 0, 0)"
    by (simp add: rp pp)
  have n: "\<not> spec_white_at_doubled_threshold 245"
    by (simp add: spec_white_at_doubled_threshold_def)
  from run grey_bands_padded_run grey_bands_dog(1) n b245 o show ?thesis by blast
qed

text \<open>
  C6, as amended. \<^verbatim>\<open>convert_pil_to_sketch\<close> calls the filter with working resolution 2048
  and \<open>thr_a = 16\<close>, and the threshold is used as passed, not doubled. A pixel of the
  filter's result is white exactly where \<open>2 \<times> (255 - dog)\<close> exceeds 16 and black
  otherwise, except for the values 119 to 127 of \<open>dog\<close>, where the 8-bit product wraps to
  a value of at most 16 and the pixel is black. The returned sketch has the size of the
  input, and its pixels are those of the filter's result resized to that size, with the
  channels reversed and every channel inverted.
\<close>

theorem sketch_threshold_is_used_as_passed:
  assumes "convert_pil_to_sketch K img = Inr out"
  shows "\<exists>padded target p r.
           resize_image_with_pad K (np_array img) 2048 = Inr (padded, target) \<and>
           scribble_xdog K (np_array img) 2048 16 = Inr (p, True) \<and>
           (\<forall>x y. getpixel p x y =
              (if 119 \<le> uint (dog_of K padded (nat y) (nat x)) \<and>
                  uint (dog_of K padded (nat y) (nat x)) \<le> 127
               then (0, 0, 0)
               else if 16 < 2 * (255 - uint (dog_of K padded (nat y) (nat x)))
               then (255, 255, 255) else (0, 0, 0))) \<and>
           Image_resize K p (int (width img), int (height img)) = Inr r \<and>
           width out = width img \<and> height out = height img \<and>
           (\<forall>x y. 0 \<le> x \<and> 0 \<le> y \<longrightarrow>
              getpixel out x y =
                (255 - snd (snd (getpixel r x y)), 255 - fst (snd (getpixel r x y)),
                 255 - fst (getpixel r x y)))"
proof -
  from convert_pil_to_sketch_D[OF assms] obtain p b r where
    s: "scribble_xdog K (np_array img) 2048 16 = Inr (p, b)" and
    r: "Image_resize K p (int (width img), int (height img)) = Inr r" and
    sz: "width out = width r" "height out = height r" and
    px: "\<forall>x y. 0 \<le> x \<and> 0 \<le> y \<longrightarrow>
              getpixel out x y =
                (255 - snd (snd (getpixel r x y)), 255 - fst (snd (getpixel r x y)),
                 255 - fst (getpixel r x y))"
    by blast
  from scribble_xdog_pixels[OF s] obtain padded target where
    pad: "resize_image_with_pad K (np_array img) 2048 = Inr (padded, target)" and b: b and
    law: "\<forall>x y. getpixel p x y =
              (xdog_binarize (dog_of K padded (nat y) (nat x)) 16,
               xdog_binarize (dog_of K padded (nat y) (nat x)) 16,
               xdog_binarize (dog_of K padded (nat y) (nat x)) 16)"
    by blast
  from b s have s': "scribble_xdog K (np_array img) 2048 16 = Inr (p, True)" by simp
  have law': "\<forall>x y. getpixel p x y =
              (if 119 \<le> uint (dog_of K padded (nat y) (nat x)) \<and>
                  uint (dog_of K padded (nat y) (nat x)) \<le> 127
               then (0, 0, 0)
               else if 16 < 2 * (255 - uint (dog_of K padded (nat y) (nat x)))
               then (255, 255, 255) else (0, 0, 0))"
    unfolding law[rule_format] xdog_binarize_16 by simp
  from Image_resize_size[OF r] sz have sz': "width out = width img" "height out = height img"
    by simp_all
  from pad s' law' r sz' px show ?thesis by blast
qed

text \<open>
  The sketch of \<open>grey_bands_image\<close>, in column 0. In row 999 the difference-of-Gaussians
  value is 245: the product 20 exceeds 16, the pixel of the filter's result is white and
  the pixel of the sketch black. In row 1500 the value is 127: the 8-bit product is 0,
  the pixel of the filter's result is black and the pixel of the sketch white.
\<close>

theorem sketch_threshold_is_used_as_passed_witness:
  "\<exists>out p. convert_pil_to_sketch example_library grey_bands_image = Inr out \<and>
     resize_image_with_pad example_library (np_array grey_bands_image) 2048 =
       Inr (grey_bands_padded, (2048, 2048)) \<and>
     scribble_xdog example_library (np_array grey_bands_image) 2048 16 = Inr (p, True) \<and>
     Image_resize example_library p (2048, 2048) = Inr p \<and>
     width out = 2048 \<and> height out = 2048 \<and>
     dog_of example_library grey_bands_padded 999 0 = 245 \<and>
     getpixel p 0 999 = (255, 255, 255) \<and>
     getpixel out 0 999 = (0, 0, 0) \<and>
     dog_of example_library grey_bands_padded 1500 0 = 127 \<and>
     getpixel p 0 1500 = (0, 0, 0) \<and>
     getpixel out 0 1500 = (255, 255, 255)"
proof -
  from grey_bands_run obtain out where
    run: "convert_pil_to_sketch example_library grey_bands_image = Inr out" by (elim exE)
  from sketch_threshold_is_used_as_passed[OF run] obtain padded target p r where
    pad: "resize_image_with_pad example_library (np_array grey_bands_image) 2048 = Inr (padded, target)" and
    s: "scribble_xdog example_library (np_array grey_bands_image) 2048 16 = Inr (p, True)" and
    law: "\<forall>x y. getpixel p x y =
              (if 119 \<le> uint (dog_of example_library padded (nat y) (nat x)) \<and>
                  uint (dog_of example_library padded (nat y) (nat x)) \<le> 127
               then (0, 0, 0)
               else if 16 < 2 * (255 - uint (dog_of example_library padded (nat y) (nat x)))
               then (255, 255, 255) else (0, 0, 0))" and
    r: "Image_resize example_library p (int (width grey_bands_image), int (height grey_bands_image)) = Inr r" and
    sz: "width out = width grey_bands_image" "height out = height grey_bands_image" and
    px: "\<forall>x y. 0 \<le> x \<and> 0 \<le> y \<longrightarrow>
              getpixel out x y =
                (255 - snd (snd (getpixel r x y)), 255 - fst (snd (getpixel r x y)),
                 255 - fst (getpixel r x y))"
    by blast
  from pad grey_bands_padded_run have pe: "padded = grey_bands_padded" by simp
  from grey_bands_resize[OF s r] have rp: "r = p" .
  from r have r': "Image_resize example_library p (2048, 2048) = Inr p"
    by (simp add: rp grey_bands_image_def)
  from sz have sz': "width out = 2048" "height out = 2048"
    by (simp_all add: grey_bands_image_def)
  from law[rule_format, of 0 999] have p1: "getpixel p 0 999 = (255, 255, 255)"
    by (simp add: pe grey_bands_dog)
  from law[rule_format, of 0 1500] have p2: "getpixel p 0 1500 = (0, 0, 0)"
    by (simp add: pe grey_bands_dog)
  from px[rule_format, of 0 999] have o1: "getpixel out 0 999 = (0, 0, 0)"
    by (simp add: rp p1)
  from px[rule_format, of 0 1500] have o2: "getpixel out 0 1500 = (255, 255, 255)"
    by (simp add: rp p2)
  from run grey_bands_padded_run s r' sz' grey_bands_dog p1 o1 p2 o2 show ?thesis by blast
qed

text \<open>
  C8. With normalised interpolation and blur kernels, the sketch of a non-empty image of
  one colour has the size of the input and is white at every pixel: the
  difference-of-Gaussians response is zero everywhere (up to the rounding allowed to the
  blur), so no pixel passes the threshold and the final inversion yields 255.
\<close>

theorem solid_image_gives_white_sketch:
  assumes "normalised_kernels K" and "solid_image img c"
    and "0 < width img" "0 < height img"
  shows "\<exists>out. convert_pil_to_sketch K img = Inr out \<and>
           width out = width img \<and> height out = height img \<and>
           solid_image out (255, 255, 255)"
proof -
  let ?a = "np_array img"
  have a: "solid_array ?a (\<lambda>k. channel k c)"
    using assms(2) by (simp add: solid_array_def solid_image_def np_array_def)
  have sz: "0 < nd_H ?a" "0 < nd_W ?a" "nd_C ?a = 3"
    using assms(3,4) by (simp_all add: np_array_def)
  from scribble_xdog_solid[OF assms(1) a sz, of 2048 16] obtain p where
    p: "scribble_xdog K ?a 2048 16 = Inr (p, True)" and
    ps: "0 < width p" "0 < height p" "solid_image p (0, 0, 0)"
    by auto
  have wh: "1 \<le> int (width img)" "1 \<le> int (height img)" using assms(3,4) by simp_all
  from Image_resize_solid[OF assms(1) ps(3) ps(1,2) wh] obtain r where
    r: "Image_resize K p (int (width img), int (height img)) = Inr r" and
    rs: "int (width r) = int (width img)" "int (height r) = int (height img)" "solid_image r (0, 0, 0)"
    by blast
  define out where "out = Image_fromarray
     ((cvtColor_RGB2BGR (np_array r))\<lparr>nd_at := \<lambda>i j k. 255 - nd_at (cvtColor_RGB2BGR (np_array r)) i j k\<rparr>)"
  have run: "convert_pil_to_sketch K img = Inr out"
    by (simp add: convert_pil_to_sketch_def Let_def p r out_def)
  have size: "width out = width img" "height out = height img"
    using rs by (simp_all add: out_def Image_fromarray_def cvtColor_RGB2BGR_def np_array_def)
  have "solid_image out (255, 255, 255)"
    unfolding solid_image_def
  proof (intro allI impI)
    fix x y assume b: "0 \<le> x \<and> x < int (width out) \<and> 0 \<le> y \<and> y < int (height out)"
    with size rs have "0 \<le> x \<and> x < int (width r) \<and> 0 \<le> y \<and> y < int (height r)" by simp
    with rs(3) have "getpixel r x y = (0, 0, 0)" unfolding solid_image_def by blast
    with b show "getpixel out x y = (255, 255, 255)"
      by (simp add: out_def Image_fromarray_def cvtColor_RGB2BGR_def np_array_def channel_def)
  qed
  with run size show ?thesis by blast
qed

text \<open>The example library is normalised; a \<open>3 \<times> 2\<close> image of one colour.\<close>

theorem solid_image_gives_white_sketch_witness:
  "normalised_kernels example_library \<and>
   solid_image (solid_color_image 3 2 (10, 20, 30)) (10, 20, 30) \<and>
   (\<exists>out. convert_pil_to_sketch example_library (solid_color_image 3 2 (10, 20, 30)) = Inr out \<and>
      width out = 3 \<and> height out = 2 \<and> solid_image out (255, 255, 255))"
proof -
  have s: "solid_image (solid_color_image 3 2 (10, 20, 30)) (10, 20, 30)"
    by (simp add: solid_image_def solid_color_image_def)
  have sz: "0 < width (solid_color_image 3 2 (10, 20, 30))" "0 < height (solid_color_image 3 2 (10, 20, 30))"
    by (simp_all add: solid_color_image_def)
  from solid_image_gives_white_sketch[OF example_library_normalised s sz]
  show ?thesis
    using example_library_normalised s by (simp add: solid_color_image_def)
qed

end
